theory Spec2Isabelle
  imports Main "HOL-Library.Word"
begin

unbundle bit_operations_syntax

section \<open>Platform and data model\<close>

text \<open>
  The file \<^verbatim>\<open>Inet4AddressImpl.c\<close> is compiled in one of two shapes, chosen by the
  preprocessor: the \<^verbatim>\<open>getaddrinfo\<close> build (\<^verbatim>\<open>_ALLBSD_SOURCE\<close> without the glibc
  \<^verbatim>\<open>gethostby*_r\<close> calls, lines 54-310) and the \<^verbatim>\<open>gethostbyname_r\<close> build
  (lines 312-579). Inside them \<^verbatim>\<open>__linux__\<close> and \<^verbatim>\<open>__solaris__\<close> switch single
  statements. The platform record carries these switches and the byte order of the host.
\<close>

record platform =
  big_endian :: bool
  linux :: bool
  solaris :: bool

type_synonym jint = "32 word"
type_synonym jbyte = "8 word"
type_synonym jchar = "16 word"

text \<open>\<^verbatim>\<open>in_addr.s_addr\<close>: the 32-bit word as the host reads it from memory.\<close>

type_synonym in_addr = "32 word"

definition bswap32 :: "32 word \<Rightarrow> 32 word" where
  "bswap32 x =
     push_bit 24 (take_bit 8 x) OR push_bit 16 (take_bit 8 (drop_bit 8 x))
       OR push_bit 8 (take_bit 8 (drop_bit 16 x)) OR drop_bit 24 x"

definition ntohl :: "platform \<Rightarrow> 32 word \<Rightarrow> 32 word" where
  "ntohl pf x = (if big_endian pf then x else bswap32 x)"

definition htonl :: "platform \<Rightarrow> 32 word \<Rightarrow> 32 word" where
  "htonl pf x = (if big_endian pf then x else bswap32 x)"

text \<open>\<^verbatim>\<open>isspace\<close> of \<^verbatim>\<open>ctype.h\<close> in the "C" locale: space, and the control characters 9 to 13.\<close>

definition isspace :: "char \<Rightarrow> bool" where
  "isspace c = (let n = (of_char c :: nat) in n = 32 \<or> (9 \<le> n \<and> n \<le> 13))"

text \<open>\<^verbatim>\<open>hostname[0]\<close> of a NUL-terminated C string: the terminator when the string is empty.\<close>

definition first_char :: "string \<Rightarrow> char" where
  "first_char s = (case s of [] \<Rightarrow> char_of (0::nat) | c # _ \<Rightarrow> c)"

section \<open>The JNI side\<close>

text \<open>
  The Java object built for each address: \<^verbatim>\<open>setInetAddress_addr\<close> and
  \<^verbatim>\<open>setInetAddress_hostName\<close> fill its two fields.
\<close>

record InetAddress =
  address :: "32 word"
  hostName :: string

text \<open>
  The exception pending when a native method returns NULL. \<open>JNIFailure\<close> stands for the
  exception a failing JNI call (\<^verbatim>\<open>NewStringUTF\<close>, \<^verbatim>\<open>NewObjectArray\<close>, \<^verbatim>\<open>NewObject\<close>,
  \<^verbatim>\<open>JNU_GetStringPlatformChars\<close>) leaves behind.
\<close>

datatype exn =
    NullPointerException string
  | UnknownHostException "string option"
  | OutOfMemoryError string
  | JNIFailure

text \<open>
  Allocation is an oracle: each field says whether the corresponding call of this
  invocation succeeds. \<open>malloc_ok k\<close> is the \<open>k\<close>-th \<^verbatim>\<open>malloc\<close> of the copy loop,
  \<open>new_object_ok k\<close> the \<open>k\<close>-th \<^verbatim>\<open>NewObject\<close>.
\<close>

record jni =
  platform_chars_ok :: bool
  malloc_ok :: "nat \<Rightarrow> bool"
  big_malloc_ok :: bool
  new_string_ok :: bool
  new_array_ok :: bool
  new_object_ok :: "nat \<Rightarrow> bool"

section \<open>Forward lookup, \<^verbatim>\<open>getaddrinfo\<close> build (lines 118-259)\<close>

text \<open>One node of the list \<^verbatim>\<open>getaddrinfo\<close> returns; only the fields the code reads or requests.\<close>

record addrinfo =
  ai_addr :: in_addr
  ai_canonname :: "string option"

text \<open>
  The resolver is an oracle from the name to the error code and the record list.
  The native method returns its result together with the names it passed to the resolver.
\<close>

type_synonym getaddrinfo_t = "string \<Rightarrow> int \<times> addrinfo list"

text \<open>The inner \<^verbatim>\<open>while (itr != NULL)\<close> of lines 175-187: is the address already in \<^verbatim>\<open>resNew\<close>?\<close>

fun skip_scan :: "addrinfo \<Rightarrow> addrinfo list \<Rightarrow> bool" where
  "skip_scan iterator [] = False"
| "skip_scan iterator (itr # rest) =
     (if ai_addr iterator = ai_addr itr then True else skip_scan iterator rest)"

text \<open>
  The outer \<^verbatim>\<open>while (iterator != NULL)\<close> of lines 171-208: a record whose address is new
  is copied to the end of \<^verbatim>\<open>resNew\<close>; \<open>None\<close> when \<^verbatim>\<open>malloc\<close> fails.
\<close>

fun copy_unique :: "(nat \<Rightarrow> bool) \<Rightarrow> addrinfo list \<Rightarrow> addrinfo list \<Rightarrow> addrinfo list option" where
  "copy_unique m [] resNew = Some resNew"
| "copy_unique m (iterator # rest) resNew =
     (if skip_scan iterator resNew then copy_unique m rest resNew
      else if \<not> m (length resNew) then None
      else copy_unique m rest (resNew @ [iterator]))"

text \<open>
  The loop of lines 225-240. The \<open>i\<close>-th node of \<^verbatim>\<open>resNew\<close> is stored at index
  \<^verbatim>\<open>retLen - i - 1\<close> of the Java array; \<open>i < retLen\<close> throughout, so the index is in range.
  A Java array slot not yet stored is null (\<open>None\<close>).
\<close>

fun fill_array :: "platform \<Rightarrow> (nat \<Rightarrow> bool) \<Rightarrow> string \<Rightarrow> nat \<Rightarrow> addrinfo list \<Rightarrow> nat
    \<Rightarrow> InetAddress option list \<Rightarrow> InetAddress option list option" where
  "fill_array pf newobj name retLen [] i ret = Some ret"
| "fill_array pf newobj name retLen (iterator # rest) i ret =
     (if \<not> newobj i then None
      else fill_array pf newobj name retLen rest (i + 1)
             (ret[retLen - i - 1 :=
                Some \<lparr>address = ntohl pf (ai_addr iterator), hostName = name\<rparr>]))"

definition lookupAllHostAddr_gai ::
  "platform \<Rightarrow> jni \<Rightarrow> getaddrinfo_t \<Rightarrow> string option
     \<Rightarrow> (exn + InetAddress option list) \<times> string list" where
  "lookupAllHostAddr_gai pf env getaddrinfo host =
     (case host of
        None \<Rightarrow> (Inl (NullPointerException ''host is null''), [])
      | Some hostname \<Rightarrow>
          if \<not> platform_chars_ok env then (Inl JNIFailure, [])
          else if isspace (first_char hostname)
            then (Inl (UnknownHostException (Some hostname)), [])
          else
            (case getaddrinfo hostname of
               (error, res) \<Rightarrow>
                 if error \<noteq> 0 then (Inl (UnknownHostException (Some hostname)), [hostname])
                 else
                   (case copy_unique (malloc_ok env) res [] of
                      None \<Rightarrow> (Inl (OutOfMemoryError ''heap allocation failed''), [hostname])
                    | Some resNew \<Rightarrow>
                        let retLen = length resNew in
                        if \<not> new_string_ok env then (Inl JNIFailure, [hostname])
                        else if \<not> new_array_ok env then (Inl JNIFailure, [hostname])
                        else
                          (case fill_array pf (new_object_ok env) hostname retLen resNew 0
                                  (replicate retLen None) of
                             None \<Rightarrow> (Inl JNIFailure, [hostname])
                           | Some ret \<Rightarrow> (Inr ret, [hostname])))))"

section \<open>Forward lookup, \<^verbatim>\<open>gethostbyname_r\<close> build (lines 404-510)\<close>

record hostent =
  h_name :: string
  h_addr_list :: "in_addr list"

text \<open>
  \<^verbatim>\<open>gethostbyname_r\<close> as an oracle: name and buffer size to the entry found (if any) and
  whether \<^verbatim>\<open>errno\<close> is \<^verbatim>\<open>ERANGE\<close> afterwards.
\<close>

type_synonym gethostbyname_t = "string \<Rightarrow> nat \<Rightarrow> hostent option \<times> bool"

definition HENT_BUF_SIZE :: nat where
  "HENT_BUF_SIZE = 1024"

definition BIG_HENT_BUF_SIZE :: nat where
  "BIG_HENT_BUF_SIZE = 10240"

text \<open>The loop of lines 486-497: the \<open>i\<close>-th address is stored at index \<open>i\<close>.\<close>

fun fill_array_r :: "platform \<Rightarrow> (nat \<Rightarrow> bool) \<Rightarrow> string \<Rightarrow> in_addr list \<Rightarrow> nat
    \<Rightarrow> InetAddress option list \<Rightarrow> InetAddress option list option" where
  "fill_array_r pf newobj host [] i ret = Some ret"
| "fill_array_r pf newobj host (addrp # rest) i ret =
     (if \<not> newobj i then None
      else fill_array_r pf newobj host rest (i + 1)
             (ret[i := Some \<lparr>address = ntohl pf addrp, hostName = host\<rparr>]))"

definition lookupAllHostAddr_r ::
  "platform \<Rightarrow> jni \<Rightarrow> gethostbyname_t \<Rightarrow> string option
     \<Rightarrow> (exn + InetAddress option list) \<times> string list" where
  "lookupAllHostAddr_r pf env gethostbyname_r host =
     (case host of
        None \<Rightarrow> (Inl (NullPointerException ''host is null''), [])
      | Some hostname \<Rightarrow>
          if \<not> platform_chars_ok env then (Inl JNIFailure, [])
          else if solaris pf \<and> isspace (first_char hostname)
            then (Inl (UnknownHostException (Some hostname)), [])
          else
            (case gethostbyname_r hostname HENT_BUF_SIZE of
               (hp0, erange) \<Rightarrow>
                 let (hp, queries) =
                       (if hp0 = None \<and> erange \<and> big_malloc_ok env
                        then (fst (gethostbyname_r hostname BIG_HENT_BUF_SIZE),
                              [hostname, hostname])
                        else (hp0, [hostname]))
                 in
                   (case hp of
                      None \<Rightarrow> (Inl (UnknownHostException (Some hostname)), queries)
                    | Some h \<Rightarrow>
                        let i = length (h_addr_list h) in
                        if \<not> new_array_ok env then (Inl JNIFailure, queries)
                        else
                          (case fill_array_r pf (new_object_ok env) hostname (h_addr_list h) 0
                                  (replicate i None) of
                             None \<Rightarrow> (Inl JNIFailure, queries)
                           | Some ret \<Rightarrow> (Inr ret, queries)))))"

text \<open>
  What the spec calls the order of first occurrence: every value once, at the place where
  it first appears.
\<close>

fun first_occurrences :: "'a list \<Rightarrow> 'a list" where
  "first_occurrences [] = []"
| "first_occurrences (x # xs) = x # first_occurrences (filter (\<lambda>y. y \<noteq> x) xs)"

text \<open>The addresses of a returned array, in array order (\<open>None\<close> for a failed call).\<close>

definition result_addresses :: "(exn + InetAddress option list) \<Rightarrow> 32 word option list option" where
  "result_addresses r =
     (case r of Inl e \<Rightarrow> None | Inr ret \<Rightarrow> Some (map (map_option address) ret))"

definition result_names :: "(exn + InetAddress option list) \<Rightarrow> string option list option" where
  "result_names r =
     (case r of Inl e \<Rightarrow> None | Inr ret \<Rightarrow> Some (map (map_option hostName) ret))"

text \<open>The names that were passed to the resolver during a call.\<close>

definition resolver_queries :: "('r \<times> string list) \<Rightarrow> string list" where
  "resolver_queries r = snd r"

subsection \<open>Concrete environments\<close>

text \<open>
  A big-endian host and one of each build flavour; a JNI side on which every allocation
  succeeds; a resolver that answers every name with three records, the first and the
  third with the same address, all under the canonical name \<open>canon.example\<close>.
\<close>

definition pf_be :: platform where
  "pf_be = \<lparr>big_endian = True, linux = False, solaris = False\<rparr>"

definition pf_linux :: platform where
  "pf_linux = \<lparr>big_endian = False, linux = True, solaris = False\<rparr>"

definition pf_solaris :: platform where
  "pf_solaris = \<lparr>big_endian = True, linux = False, solaris = True\<rparr>"

definition env_ok :: jni where
  "env_ok = \<lparr>platform_chars_ok = True, malloc_ok = (\<lambda>k. True), big_malloc_ok = True,
     new_string_ok = True, new_array_ok = True, new_object_ok = (\<lambda>k. True)\<rparr>"

definition gai_dup :: getaddrinfo_t where
  "gai_dup name =
     (0, [\<lparr>ai_addr = 1, ai_canonname = Some ''canon.example''\<rparr>,
          \<lparr>ai_addr = 2, ai_canonname = Some ''canon.example''\<rparr>,
          \<lparr>ai_addr = 1, ai_canonname = Some ''canon.example''\<rparr>])"

definition ghbn_dup :: gethostbyname_t where
  "ghbn_dup name buflen =
     (Some \<lparr>h_name = ''canon.example'', h_addr_list = [1, 2, 1]\<rparr>, False)"

section \<open>Local host name\<close>

text \<open>
  The native method ends in one of two ways that hand nothing back to the caller:
  a \<^verbatim>\<open>strcpy\<close> that writes past the end of the stack buffer \<^verbatim>\<open>hostname\<close>, and a
  \<^verbatim>\<open>NewStringUTF\<close> that returns NULL.
\<close>

datatype fault = BufferOverrun | NullResult

text \<open>
  \<^verbatim>\<open>strcpy(hostname, src)\<close> into a buffer of \<open>bufsize\<close> bytes: the characters of \<open>src\<close> and
  the terminating NUL must fit.
\<close>

definition strcpy :: "nat \<Rightarrow> string \<Rightarrow> fault + string" where
  "strcpy bufsize src = (if length src < bufsize then Inr src else Inl BufferOverrun)"

definition NewStringUTF :: "jni \<Rightarrow> string \<Rightarrow> fault + string" where
  "NewStringUTF env s = (if new_string_ok env then Inr s else Inl NullResult)"

text \<open>
  \<^verbatim>\<open>getaddrinfo\<close> build (lines 65-100), with \<^verbatim>\<open>char hostname[NI_MAXHOST+1]\<close>; \<^verbatim>\<open>NI_MAXHOST\<close>
  is a constant of \<^verbatim>\<open>netdb.h\<close> and a parameter here. \<^verbatim>\<open>JVM_GetHostName\<close> is an oracle:
  \<open>None\<close> when it returns non-zero, otherwise the string it left in the buffer.
  \<^verbatim>\<open>getaddrinfo\<close> is asked with \<^verbatim>\<open>AF_UNSPEC\<close> and answers with an error code and the socket
  address of its first record (of a type \<open>'sa\<close> left open). \<^verbatim>\<open>getnameinfo\<close> is given that
  address and the buffer, and answers with an error code and the string the buffer holds
  afterwards. The code stores that error code and never tests it: the buffer is returned
  as it is.
\<close>

definition getLocalHostName_gai ::
  "nat \<Rightarrow> jni \<Rightarrow> string option \<Rightarrow> (string \<Rightarrow> int \<times> 'sa) \<Rightarrow> ('sa \<Rightarrow> string \<Rightarrow> int \<times> string)
     \<Rightarrow> fault + string" where
  "getLocalHostName_gai NI_MAXHOST env JVM_GetHostName getaddrinfo getnameinfo =
     (case (case JVM_GetHostName of
              None \<Rightarrow> strcpy (NI_MAXHOST + 1) ''localhost''
            | Some hostname \<Rightarrow>
                (case getaddrinfo hostname of
                   (error, res_ai_addr) \<Rightarrow>
                     if error = 0 then Inr (snd (getnameinfo res_ai_addr hostname))
                     else Inr hostname)) of
        Inl f \<Rightarrow> Inl f
      | Inr hostname \<Rightarrow> NewStringUTF env hostname)"

text \<open>
  \<^verbatim>\<open>strncmp(s1, s2, n) == 0\<close> on NUL-terminated strings without inner NUL: the first \<open>n\<close>
  characters (or all, when shorter) agree.
\<close>

definition strncmp_eq :: "string \<Rightarrow> string \<Rightarrow> nat \<Rightarrow> bool" where
  "strncmp_eq s1 s2 n = (take n s1 = take n s2)"

text \<open>
  \<^verbatim>\<open>gethostbyname_r\<close> build (lines 327-386), with \<^verbatim>\<open>char hostname[MAXHOSTNAMELEN+1]\<close>;
  \<^verbatim>\<open>MAXHOSTNAMELEN\<close> is a constant of \<^verbatim>\<open>sys/param.h\<close> and a parameter here.
  \<^verbatim>\<open>JVM_GetHostName\<close> answers \<open>None\<close> when it returns non-zero, otherwise the characters
  it wrote; line 356 cuts them off at \<^verbatim>\<open>MAXHOSTNAMELEN\<close>. Both lookups are oracles to the
  entry found, if any; \<^verbatim>\<open>gethostbyaddr_r\<close> is given the entry of the forward lookup, of
  which it reads \<^verbatim>\<open>h_addr\<close> and \<^verbatim>\<open>h_length\<close>. The index \<^verbatim>\<open>strlen(hostname)\<close> is read from
  \<^verbatim>\<open>h_name\<close> only after the length test, so it is in range. The \<^verbatim>\<open>strcpy\<close> of line 381
  copies \<^verbatim>\<open>h_name\<close> whatever its length.
\<close>

definition getLocalHostName_r ::
  "nat \<Rightarrow> jni \<Rightarrow> string option \<Rightarrow> (string \<Rightarrow> hostent option) \<Rightarrow> (hostent \<Rightarrow> hostent option)
     \<Rightarrow> fault + string" where
  "getLocalHostName_r MAXHOSTNAMELEN env JVM_GetHostName gethostbyname_r gethostbyaddr_r =
     (case (case JVM_GetHostName of
              None \<Rightarrow> strcpy (MAXHOSTNAMELEN + 1) ''localhost''
            | Some written \<Rightarrow>
                (let hostname = take MAXHOSTNAMELEN written in
                 case gethostbyname_r hostname of
                   None \<Rightarrow> Inr hostname
                 | Some hp \<Rightarrow>
                     (case gethostbyaddr_r hp of
                        None \<Rightarrow> Inr hostname
                      | Some hp2 \<Rightarrow>
                          if length (h_name hp2) > length hostname
                             \<and> strncmp_eq hostname (h_name hp2) (length hostname)
                             \<and> h_name hp2 ! length hostname = CHR ''.''
                          then strcpy (MAXHOSTNAMELEN + 1) (h_name hp2)
                          else Inr hostname))) of
        Inl f \<Rightarrow> Inl f
      | Inr hostname \<Rightarrow> NewStringUTF env hostname)"

text \<open>What the spec calls a proper dot-separated prefix.\<close>

definition proper_dot_prefix :: "string \<Rightarrow> string \<Rightarrow> bool" where
  "proper_dot_prefix short long = (take (Suc (length short)) long = short @ ''.'')"

subsection \<open>Concrete lookups\<close>

text \<open>
  Forward lookups that succeed and that fail; reverse lookups that answer \<open>other\<close>, that
  fail and leave the buffer alone, and that fail after writing into the buffer; and for
  the \<^verbatim>\<open>gethostbyname_r\<close> build a reverse lookup with a qualified name of 16 characters
  and one with a qualified name of 69 characters.
\<close>

definition fwd_ok :: "string \<Rightarrow> int \<times> nat" where
  "fwd_ok name = (0, 7)"

definition rev_other :: "nat \<Rightarrow> string \<Rightarrow> int \<times> string" where
  "rev_other sa buffer = (0, ''other'')"

definition fwd_fail :: "string \<Rightarrow> int \<times> nat" where
  "fwd_fail name = (1, 0)"

definition rev_fail :: "nat \<Rightarrow> string \<Rightarrow> int \<times> string" where
  "rev_fail sa buffer = (1, buffer)"

definition rev_fail_partial :: "nat \<Rightarrow> string \<Rightarrow> int \<times> string" where
  "rev_fail_partial sa buffer = (1, ''oth'')"

definition ghbn_host :: "string \<Rightarrow> hostent option" where
  "ghbn_host name = Some \<lparr>h_name = name, h_addr_list = [1]\<rparr>"

definition ghba_fqdn :: "hostent \<Rightarrow> hostent option" where
  "ghba_fqdn hp = Some \<lparr>h_name = ''host.example.org'', h_addr_list = [1]\<rparr>"

definition ghba_long :: "hostent \<Rightarrow> hostent option" where
  "ghba_long hp = Some \<lparr>h_name = ''host.'' @ replicate 64 (CHR ''a''), h_addr_list = [1]\<rparr>"

definition ghbn_none :: "string \<Rightarrow> hostent option" where
  "ghbn_none name = None"

definition ghba_none :: "hostent \<Rightarrow> hostent option" where
  "ghba_none hp = None"

section \<open>The internet checksum\<close>

text \<open>
  Modelled from the spec: \<^verbatim>\<open>in_cksum\<close> is called at line 650 and defined in
  \<^verbatim>\<open>net_util_md.c\<close>, which is not among the sources. The spec describes it as the standard
  one's-complement 16-bit internet checksum: the packet is read as an array of 16-bit
  words, an odd trailing byte is padded with a zero byte, the words are added with
  end-around carry, and the checksum is the complement of that sum.
\<close>

definition ones_add :: "16 word \<Rightarrow> 16 word \<Rightarrow> 16 word" where
  "ones_add a b =
     (let s = unat a + unat b in of_nat (if 65536 \<le> s then s - 65535 else s))"

definition ones_sum :: "16 word list \<Rightarrow> 16 word" where
  "ones_sum ws = foldl ones_add 0 ws"

text \<open>A \<^verbatim>\<open>u_short\<close> read from, and written to, two consecutive bytes of memory.\<close>

definition ushort_at :: "platform \<Rightarrow> 8 word \<Rightarrow> 8 word \<Rightarrow> 16 word" where
  "ushort_at pf b0 b1 =
     (if big_endian pf then push_bit 8 (ucast b0) OR ucast b1
      else push_bit 8 (ucast b1) OR ucast b0)"

definition ushort_bytes :: "platform \<Rightarrow> 16 word \<Rightarrow> 8 word list" where
  "ushort_bytes pf w =
     (if big_endian pf then [ucast (drop_bit 8 w), ucast w]
      else [ucast w, ucast (drop_bit 8 w)])"

fun ushorts :: "platform \<Rightarrow> 8 word list \<Rightarrow> 16 word list" where
  "ushorts pf [] = []"
| "ushorts pf [b] = [ushort_at pf b 0]"
| "ushorts pf (b0 # b1 # bs) = ushort_at pf b0 b1 # ushorts pf bs"

definition in_cksum :: "platform \<Rightarrow> 8 word list \<Rightarrow> 16 word" where
  "in_cksum pf bs = NOT (ones_sum (ushorts pf bs))"

text \<open>
  The number a 16-bit word stands for in one's-complement arithmetic: with the top bit
  set, minus the complement. Zero has two representations, \<open>0x0000\<close> and \<open>0xFFFF\<close>.
\<close>

definition ones_value :: "16 word \<Rightarrow> int" where
  "ones_value w = (if bit w 15 then - uint (NOT w) else uint w)"

text \<open>
  \<^verbatim>\<open>icmp->icmp_cksum = c\<close>: the checksum field is the \<^verbatim>\<open>u_short\<close> at byte offset 2 of the
  ICMP header.
\<close>

definition set_icmp_cksum :: "platform \<Rightarrow> 16 word \<Rightarrow> 8 word list \<Rightarrow> 8 word list" where
  "set_icmp_cksum pf c bs = bs[2 := ushort_bytes pf c ! 0, 3 := ushort_bytes pf c ! 1]"

text \<open>
  The value of a one's-complement sum in terms of the plain sum of the words: zero for
  zero, otherwise the representative of the sum modulo 65535 in the range 1 to 65535.
\<close>

definition oc_norm :: "nat \<Rightarrow> nat" where
  "oc_norm t = (if t = 0 then 0 else (t - 1) mod 65535 + 1)"

section \<open>Reachability probe (lines 583-850)\<close>

text \<open>
  \<^verbatim>\<open>errno\<close> values the code tests, and any other. The numbers behind the names are the
  platform's; the code only compares them.
\<close>

datatype errno =
    ECONNREFUSED | ENETUNREACH | EAFNOSUPPORT | EADDRNOTAVAIL | EINVAL | EINPROGRESS
  | EOTHER nat

text \<open>
  What the caller of \<^verbatim>\<open>isReachable0\<close> sees: \<^verbatim>\<open>JNI_TRUE\<close> is \<open>Reachable\<close>; \<^verbatim>\<open>JNI_FALSE\<close>
  with no exception pending is \<open>Unreachable\<close>; \<^verbatim>\<open>JNI_FALSE\<close> after \<^verbatim>\<open>NET_ThrowNew\<close> or
  \<^verbatim>\<open>NET_ThrowByNameWithLastError\<close> is \<open>ProbeError\<close> with the message thrown.
\<close>

datatype outcome = Reachable | Unreachable | ProbeError string

text \<open>The system calls a probe makes, in order, with the arguments the claims speak of.\<close>

datatype event =
    RawSocket int
  | StreamSocket int
  | SetRcvBuf
  | SetTTL jint
  | Bind in_addr
  | SetNonBlocking
  | SendTo "8 word list" in_addr
  | Wait jint jint
  | RecvFrom
  | Connect in_addr nat
  | WaitConnect jint jint
  | GetSockOpt
  | Close

text \<open>
  What \<^verbatim>\<open>recvfrom\<close> leaves behind: its return value, the contents of \<^verbatim>\<open>recvbuf\<close> (by
  byte offset) and the sender's address \<^verbatim>\<open>sa_recv.sin_addr.s_addr\<close>.
\<close>

record recv =
  recv_n :: int
  recvbuf :: "nat \<Rightarrow> 8 word"
  sa_recv :: in_addr

text \<open>
  The operating system as an oracle. Calls that happen once per probe have one answer;
  calls inside the loops are indexed by their number within the probe. \<open>net_wait k t\<close> is
  what the \<open>k\<close>-th \<^verbatim>\<open>NET_Wait(env, fd, NET_WAIT_READ, t)\<close> returns; \<^verbatim>\<open>NET_Wait\<close> is declared
  in \<^verbatim>\<open>net_util.h\<close> and not among the sources. \<open>JVM_IO_ERR\<close> is the constant of
  \<^verbatim>\<open>jvm.h\<close>, also not among the sources. \<open>stack_bytes\<close> is what the uninitialised
  \<^verbatim>\<open>sendbuf\<close> holds on entry. \<open>getsockopt_res\<close> is the return value of
  \<^verbatim>\<open>JVM_GetSockOpt\<close>, the \<^verbatim>\<open>SO_ERROR\<close> value it stored (\<open>None\<close> for 0) and \<^verbatim>\<open>errno\<close>
  afterwards.
\<close>

record os =
  JVM_IO_ERR :: int
  raw_socket :: int
  stream_socket :: int
  getpid :: int
  bind_res :: int
  stack_bytes :: "nat \<Rightarrow> 8 word"
  gettimeofday :: "nat \<Rightarrow> 8 word list"
  sendto_res :: "nat \<Rightarrow> int \<times> errno"
  net_wait :: "nat \<Rightarrow> jint \<Rightarrow> jint"
  recvfrom_res :: "nat \<Rightarrow> recv"
  connect_res :: "int \<times> errno"
  wait_connect :: "jint \<Rightarrow> jint"
  getsockopt_res :: "int \<times> errno option \<times> errno"

text \<open>The progress of one probe: how many calls of each indexed kind, and the calls so far.\<close>

record pstate =
  n_send :: nat
  n_wait :: nat
  n_recv :: nat
  trace :: "event list"

definition emit :: "event \<Rightarrow> pstate \<Rightarrow> pstate" where
  "emit e s = s\<lparr>trace := trace s @ [e]\<rparr>"

text \<open>Constants of \<^verbatim>\<open>netinet/ip_icmp.h\<close>; \<^verbatim>\<open>ICMP_ADVLENMIN\<close> is \<^verbatim>\<open>8 + sizeof(struct ip) + 8\<close>.\<close>

definition ICMP_ECHO :: "8 word" where
  "ICMP_ECHO = 8"

definition ICMP_ECHOREPLY :: "8 word" where
  "ICMP_ECHOREPLY = 0"

definition ICMP_ADVLENMIN :: nat where
  "ICMP_ADVLENMIN = 36"

text \<open>
  Lines 640-650: the echo request in \<^verbatim>\<open>sendbuf\<close>, \<open>plen\<close> bytes long. Type and code, the
  checksum field, \<^verbatim>\<open>htons(pid)\<close> and \<^verbatim>\<open>htons(seq)\<close> (high byte first), the bytes of the
  \<^verbatim>\<open>timeval\<close>; the rest of the \<open>plen\<close> bytes is whatever \<^verbatim>\<open>sendbuf\<close> held. The checksum
  is computed with the field zero and then stored.
\<close>

definition echo_request :: "platform \<Rightarrow> os \<Rightarrow> jchar \<Rightarrow> jint \<Rightarrow> 8 word list \<Rightarrow> 8 word list" where
  "echo_request pf os pid seq tv =
     (let plen = ICMP_ADVLENMIN + length tv;
          seq16 = (ucast seq :: 16 word);
          packet =
            [ICMP_ECHO, 0, stack_bytes os 2, stack_bytes os 3,
             ucast (drop_bit 8 pid), ucast pid, ucast (drop_bit 8 seq16), ucast seq16]
            @ tv @ map (stack_bytes os) [8 + length tv ..< plen];
          zeroed = set_icmp_cksum pf 0 packet
      in set_icmp_cksum pf (in_cksum pf zeroed) zeroed)"

text \<open>
  Lines 676-686: the test of a received datagram. \<^verbatim>\<open>ip_hl\<close> is the low nibble of the first
  byte; the ICMP header starts \<open>hlen1\<close> bytes in; \<^verbatim>\<open>ntohs(icmp->icmp_id)\<close> reads the bytes
  at offsets 4 and 5 of it, high byte first.
\<close>

definition hlen1 :: "recv \<Rightarrow> nat" where
  "hlen1 r = 4 * unat (recvbuf r 0 AND 0x0F)"

definition icmplen :: "recv \<Rightarrow> int" where
  "icmplen r = recv_n r - int (hlen1 r)"

definition icmp_type :: "recv \<Rightarrow> 8 word" where
  "icmp_type r = recvbuf r (hlen1 r)"

definition icmp_id :: "recv \<Rightarrow> 16 word" where
  "icmp_id r =
     push_bit 8 (ucast (recvbuf r (hlen1 r + 4))) OR ucast (recvbuf r (hlen1 r + 5))"

definition reply_matches :: "jchar \<Rightarrow> in_addr \<Rightarrow> recv \<Rightarrow> bool" where
  "reply_matches pid him r =
     (icmplen r \<ge> 8 \<and> icmp_type r = ICMP_ECHOREPLY \<and> icmp_id r = pid \<and> him = sa_recv r)"

text \<open>
  The inner \<^verbatim>\<open>do ... while (tmout2 > 0)\<close> of lines 671-691. The result says whether a
  matching reply arrived (the code then closes the socket and returns \<^verbatim>\<open>JNI_TRUE\<close>). The
  loop runs as long as \<^verbatim>\<open>NET_Wait\<close> returns a positive value, so it need not end:
  \<open>None\<close> is a loop that runs forever.
\<close>

partial_function (option) wait_reply ::
  "os \<Rightarrow> jchar \<Rightarrow> in_addr \<Rightarrow> jint \<Rightarrow> pstate \<Rightarrow> (bool \<times> pstate) option" where
  "wait_reply os pid him tmout2 s =
     (let t = net_wait os (n_wait s) tmout2;
          s1 = emit (Wait tmout2 t) (s\<lparr>n_wait := n_wait s + 1\<rparr>)
      in if 0 \<le> sint t then
           (let r = recvfrom_res os (n_recv s1);
                s2 = emit RecvFrom (s1\<lparr>n_recv := n_recv s1 + 1\<rparr>)
            in if reply_matches pid him r then Some (True, s2)
               else if 0 < sint t then wait_reply os pid him t s2
               else Some (False, s2))
         else if 0 < sint t then wait_reply os pid him t s1
         else Some (False, s1))"

text \<open>
  The outer \<^verbatim>\<open>do ... while (timeout > 0)\<close> of lines 636-693, with \<^verbatim>\<open>timeout -= 1000\<close> on
  32-bit integers. Under \<^verbatim>\<open>__linux__\<close> a failed \<^verbatim>\<open>sendto\<close> with \<^verbatim>\<open>EINVAL\<close> throws nothing.
\<close>

partial_function (option) echo_loop ::
  "platform \<Rightarrow> os \<Rightarrow> jchar \<Rightarrow> in_addr \<Rightarrow> jint \<Rightarrow> jint \<Rightarrow> pstate
     \<Rightarrow> (outcome \<times> pstate) option" where
  "echo_loop pf os pid him timeout seq s =
     (let packet = echo_request pf os pid seq (gettimeofday os (n_send s));
          n = fst (sendto_res os (n_send s));
          errno = snd (sendto_res os (n_send s));
          s1 = emit (SendTo packet him) (s\<lparr>n_send := n_send s + 1\<rparr>)
      in if n < 0 \<and> errno \<noteq> EINPROGRESS then
           (if linux pf \<and> errno = EINVAL then Some (Unreachable, emit Close s1)
            else Some (ProbeError ''Can't send ICMP packet'', emit Close s1))
         else
           (let tmout2 = (if 1000 < sint timeout then 1000 else timeout) in
            Option.bind (wait_reply os pid him tmout2 s1) (\<lambda>res.
              if fst res then Some (Reachable, emit Close (snd res))
              else if 0 < sint (timeout - 1000)
                then echo_loop pf os pid him (timeout - 1000) (seq + 1) (snd res)
              else Some (Unreachable, emit Close (snd res)))))"

text \<open>\<^verbatim>\<open>ping4\<close>, lines 595-696; \<open>netif\<close> is \<open>None\<close> for a NULL pointer.\<close>

definition ping4 ::
  "platform \<Rightarrow> os \<Rightarrow> in_addr \<Rightarrow> jint \<Rightarrow> in_addr option \<Rightarrow> jint \<Rightarrow> pstate
     \<Rightarrow> (outcome \<times> pstate) option" where
  "ping4 pf os him timeout netif ttl s =
     (let pid = (word_of_int (getpid os) :: jchar);
          s1 = emit SetRcvBuf s;
          s2 = (if 0 < sint ttl then emit (SetTTL ttl) s1 else s1)
      in case netif of
           Some nif \<Rightarrow>
             if bind_res os < 0
             then Some (ProbeError ''Can't bind socket'', emit Close (emit (Bind nif) s2))
             else echo_loop pf os pid him timeout 1 (emit SetNonBlocking (emit (Bind nif) s2))
         | None \<Rightarrow> echo_loop pf os pid him timeout 1 (emit SetNonBlocking s2))"

text \<open>
  Lines 727-731 and 742-746: the four bytes of a Java \<^verbatim>\<open>byte[]\<close> (signed) packed into an
  \<^verbatim>\<open>int\<close>, first byte highest; \<^verbatim>\<open>htonl\<close> of it is the \<^verbatim>\<open>s_addr\<close>.
\<close>

definition addr_of_bytes :: "jbyte list \<Rightarrow> jint" where
  "addr_of_bytes caddr =
     (push_bit 24 (scast (caddr ! 0)) AND 0xff000000)
       OR (push_bit 16 (scast (caddr ! 1)) AND 0xff0000)
       OR (push_bit 8 (scast (caddr ! 2)) AND 0xff00)
       OR (scast (caddr ! 3) AND 0xff)"

text \<open>
  \<^verbatim>\<open>GetByteArrayRegion(env, array, 0, 4, caddr)\<close> after \<^verbatim>\<open>memset\<close>: the first four bytes of
  the array; for a shorter array the region is not copied and \<^verbatim>\<open>caddr\<close> stays zero (the
  Java exception the call raises then is left out of the model).
\<close>

definition get_region4 :: "jbyte list \<Rightarrow> jbyte list" where
  "get_region4 array = (if 4 \<le> length array then take 4 array else [0, 0, 0, 0])"

text \<open>
  Lines 837-841: the value of \<^verbatim>\<open>connect_rv\<close> after \<^verbatim>\<open>JVM_GetSockOpt\<close>: the socket's
  \<^verbatim>\<open>SO_ERROR\<close>, or \<^verbatim>\<open>errno\<close> when the call itself failed.
\<close>

definition pending_error :: "os \<Rightarrow> errno option" where
  "pending_error os =
     (if fst (getsockopt_res os) < 0 then Some (snd (snd (getsockopt_res os)))
      else fst (snd (getsockopt_res os)))"

text \<open>
  The TCP part of \<^verbatim>\<open>isReachable0\<close>, lines 765-849, entered when the raw socket could not
  be opened; \<open>tr\<close> is the trace up to there.
\<close>

definition tcp_probe ::
  "platform \<Rightarrow> os \<Rightarrow> in_addr \<Rightarrow> jint \<Rightarrow> in_addr option \<Rightarrow> jint \<Rightarrow> event list
     \<Rightarrow> outcome \<times> event list" where
  "tcp_probe pf os him timeout netif ttl tr =
     (let fd = stream_socket os;
          tr1 = tr @ [StreamSocket fd]
      in if fd = JVM_IO_ERR os then (ProbeError ''Can't create socket'', tr1)
         else
           (let tr2 = (if 0 < sint ttl then tr1 @ [SetTTL ttl] else tr1);
                tr3 = (case netif of None \<Rightarrow> tr2 | Some nif \<Rightarrow> tr2 @ [Bind nif])
            in if netif \<noteq> None \<and> bind_res os < 0
               then (ProbeError ''Can't bind socket'', tr3 @ [Close])
               else
                 (let tr4 = tr3 @ [SetNonBlocking, Connect him 7];
                      connect_rv = fst (connect_res os);
                      errno = snd (connect_res os)
                  in if connect_rv = 0 \<or> errno = ECONNREFUSED then (Reachable, tr4 @ [Close])
                     else if errno = ENETUNREACH \<or> errno = EAFNOSUPPORT
                             \<or> errno = EADDRNOTAVAIL \<or> (linux pf \<and> errno = EINVAL)
                       then (Unreachable, tr4 @ [Close])
                     else if errno \<noteq> EINPROGRESS
                       then (ProbeError ''connect failed'', tr4 @ [Close])
                     else
                       (let timeout2 = wait_connect os timeout;
                            tr5 = tr4 @ [WaitConnect timeout timeout2]
                        in if 0 \<le> sint timeout2 then
                             (let connect_rv2 = pending_error os
                              in if connect_rv2 = None \<or> connect_rv2 = Some ECONNREFUSED
                                 then (Reachable, tr5 @ [GetSockOpt, Close])
                                 else (Unreachable, tr5 @ [GetSockOpt, Close]))
                           else (Unreachable, tr5 @ [Close])))))"

text \<open>The state in which \<^verbatim>\<open>ping4\<close> is entered: one call made, the one that opened \<open>fd\<close>.\<close>

definition probe_start :: "int \<Rightarrow> pstate" where
  "probe_start fd = \<lparr>n_send = 0, n_wait = 0, n_recv = 0, trace = [RawSocket fd]\<rparr>"

text \<open>
  \<^verbatim>\<open>isReachable0\<close>, lines 703-850. \<open>ifArray\<close> is \<open>None\<close> for a null reference. The result
  is the outcome and the system calls made; \<open>None\<close> when the echo loop does not return.
\<close>

definition isReachable0 ::
  "platform \<Rightarrow> os \<Rightarrow> jbyte list \<Rightarrow> jint \<Rightarrow> jbyte list option \<Rightarrow> jint
     \<Rightarrow> (outcome \<times> event list) option" where
  "isReachable0 pf os addrArray timeout ifArray ttl =
     (if length addrArray \<noteq> 4 then Some (Unreachable, [])
      else
        (let him = htonl pf (addr_of_bytes (get_region4 addrArray));
             netif = map_option (\<lambda>a. htonl pf (addr_of_bytes (get_region4 a))) ifArray;
             fd = raw_socket os
         in if fd \<noteq> - 1
            then map_option (\<lambda>res. (fst res, trace (snd res)))
                   (ping4 pf os him timeout netif ttl (probe_start fd))
            else Some (tcp_probe pf os him timeout netif ttl [RawSocket fd])))"

text \<open>
  The contract of \<^verbatim>\<open>NET_Wait\<close> the echo loop relies on: a positive return value is what is
  left of the budget it was given, and less than it.
\<close>

definition wait_contract :: "os \<Rightarrow> bool" where
  "wait_contract os = (\<forall>k t. 0 < sint (net_wait os k t) \<longrightarrow> sint (net_wait os k t) < sint t)"

text \<open>
  The budgets of the slices: the value given to the first \<^verbatim>\<open>NET_Wait\<close> after each
  \<^verbatim>\<open>sendto\<close>.
\<close>

fun is_SendTo :: "event \<Rightarrow> bool" where
  "is_SendTo (SendTo p a) = True"
| "is_SendTo e = False"

fun slice_budgets :: "event list \<Rightarrow> jint list" where
  "slice_budgets (SendTo p a # Wait g r # es) = g # slice_budgets es"
| "slice_budgets (e # es) = slice_budgets es"
| "slice_budgets [] = []"

text \<open>The number of echo requests a timeout of \<open>t\<close> milliseconds pays for.\<close>

definition n_requests :: "int \<Rightarrow> nat" where
  "n_requests t = max 1 (nat ((t + 999) div 1000))"

subsection \<open>Concrete systems\<close>

text \<open>
  \<open>os_silent\<close>: the raw socket opens and nothing ever arrives (every wait times out).
  \<open>os_unprivileged\<close>: the raw socket is refused, the stream socket opens and the
  connection, first in progress, completes without error. \<open>os_no_sockets\<close>: no socket
  can be opened at all. \<open>os_answering\<close>: the raw socket opens and every wait is answered
  at once by an echo reply from 10.0.0.1 with identifier \<open>0x1234\<close>.
\<close>

definition os_silent :: os where
  "os_silent = \<lparr>JVM_IO_ERR = - 1, raw_socket = 3, stream_socket = 4, getpid = 0x1234,
     bind_res = 0, stack_bytes = (\<lambda>i. 0), gettimeofday = (\<lambda>k. replicate 16 0),
     sendto_res = (\<lambda>k. (52, EOTHER 0)), net_wait = (\<lambda>k t. - 1),
     recvfrom_res = (\<lambda>k. \<lparr>recv_n = - 1, recvbuf = (\<lambda>i. 0), sa_recv = 0\<rparr>),
     connect_res = (- 1, EINPROGRESS), wait_connect = (\<lambda>t. 5),
     getsockopt_res = (0, None, EOTHER 0)\<rparr>"

definition os_unprivileged :: os where
  "os_unprivileged = os_silent\<lparr>raw_socket := - 1\<rparr>"

definition os_no_sockets :: os where
  "os_no_sockets = os_silent\<lparr>raw_socket := - 1, stream_socket := - 1\<rparr>"

definition echo_reply_buf :: "nat \<Rightarrow> 8 word" where
  "echo_reply_buf i = (if i = 0 then 0x45 else if i = 24 then 0x12 else if i = 25 then 0x34 else 0)"

definition os_answering :: os where
  "os_answering = os_silent\<lparr>net_wait := (\<lambda>k t. 0),
     recvfrom_res := (\<lambda>k. \<lparr>recv_n = 28, recvbuf = echo_reply_buf, sa_recv = 0x0A000001\<rparr>)\<rparr>"

section \<open>Forward lookup: address list, host name, input guard\<close>

lemma bit_bswap32:
  "bit (bswap32 x) n \<longleftrightarrow>
     (if n < 8 then bit x (n + 24) else if n < 16 then bit x (n + 8)
      else if n < 24 then bit x (n - 8) else n < 32 \<and> bit x (n - 24))"
  unfolding bswap32_def
  by (auto simp: bit_simps add.commute dest: bit_imp_le_length)

lemma bswap32_involution: "bswap32 (bswap32 x) = x"
  by (rule bit_word_eqI) (auto simp: bit_bswap32)

lemma ntohl_inj: "ntohl pf a = ntohl pf b \<longleftrightarrow> a = b"
  by (metis bswap32_involution ntohl_def)

lemma skip_scan_iff: "skip_scan it acc \<longleftrightarrow> ai_addr it \<in> ai_addr ` set acc"
  by (induction acc) auto

lemma first_occurrences_set: "set (first_occurrences xs) = set xs"
  by (induction xs rule: first_occurrences.induct) auto

lemma first_occurrences_distinct: "distinct (first_occurrences xs)"
  by (induction xs rule: first_occurrences.induct) (auto simp: first_occurrences_set)

lemma filter_swap: "filter P (filter Q xs) = filter Q (filter P xs)"
  by (induction xs) auto

lemma first_occurrences_filter:
  "first_occurrences (filter P xs) = filter P (first_occurrences xs)"
proof (induction xs rule: first_occurrences.induct)
  case 1
  then show ?case by simp
next
  case (2 x xs)
  show ?case
  proof (cases "P x")
    case True
    have "filter (\<lambda>y. y \<noteq> x) (filter P xs) = filter P (filter (\<lambda>y. y \<noteq> x) xs)"
      by (rule filter_swap)
    with True 2 show ?thesis by simp
  next
    case False
    have "filter P xs = filter P (filter (\<lambda>y. y \<noteq> x) xs)"
      using False by (induction xs) auto
    with False 2 show ?thesis by simp
  qed
qed

lemma copy_unique_gen:
  "copy_unique m res acc = Some resNew \<Longrightarrow> distinct (map ai_addr acc) \<Longrightarrow>
   map ai_addr resNew =
     map ai_addr acc @ first_occurrences (filter (\<lambda>a. a \<notin> ai_addr ` set acc) (map ai_addr res))"
proof (induction res arbitrary: acc)
  case Nil
  then show ?case by simp
next
  case (Cons it rest)
  show ?case
  proof (cases "skip_scan it acc")
    case True
    with Cons show ?thesis by (simp add: skip_scan_iff)
  next
    case False
    then have notin: "ai_addr it \<notin> ai_addr ` set acc" by (simp add: skip_scan_iff)
    from Cons.prems False have m: "m (length acc)" and
      rec: "copy_unique m rest (acc @ [it]) = Some resNew"
      by (auto split: if_splits)
    have d: "distinct (map ai_addr (acc @ [it]))" using Cons.prems(2) notin by auto
    have eq: "filter (\<lambda>a. a \<noteq> ai_addr it \<and> a \<notin> ai_addr ` set acc) (map ai_addr rest)
        = filter (\<lambda>y. y \<noteq> ai_addr it) (filter (\<lambda>a. a \<notin> ai_addr ` set acc) (map ai_addr rest))"
      by (induction rest) auto
    note filter_filter [simp del]
    from Cons.IH[OF rec d] show ?thesis using notin
      by (simp add: eq)
  qed
qed

lemma fill_array_gen:
  "fill_array pf newobj name retLen xs i ret = Some ret' \<Longrightarrow> i + length xs = retLen \<Longrightarrow>
   length ret = retLen \<Longrightarrow>
   ret' = map (\<lambda>a. Some \<lparr>address = ntohl pf (ai_addr a), hostName = name\<rparr>) (rev xs)
            @ drop (length xs) ret"
proof (induction xs arbitrary: i ret)
  case Nil
  then show ?case by simp
next
  case (Cons x rest)
  from Cons.prems have idx: "retLen - i - 1 = length rest" by simp
  let ?v = "Some \<lparr>address = ntohl pf (ai_addr x), hostName = name\<rparr>"
  from Cons.prems have rec:
    "fill_array pf newobj name retLen rest (i + 1) (ret[length rest := ?v]) = Some ret'"
    using idx by (simp split: if_splits)
  have "ret' = map (\<lambda>a. Some \<lparr>address = ntohl pf (ai_addr a), hostName = name\<rparr>) (rev rest)
            @ drop (length rest) (ret[length rest := ?v])"
    using Cons.IH[OF rec] Cons.prems by simp
  moreover have "drop (length rest) (ret[length rest := ?v]) = ?v # drop (Suc (length rest)) ret"
    using Cons.prems by (simp add: upd_conv_take_nth_drop)
  ultimately show ?case by simp
qed

lemma fill_array_r_gen:
  "fill_array_r pf newobj host xs i ret = Some ret' \<Longrightarrow> i + length xs = length ret \<Longrightarrow>
   ret' = take i ret @ map (\<lambda>a. Some \<lparr>address = ntohl pf a, hostName = host\<rparr>) xs"
proof (induction xs arbitrary: i ret)
  case Nil
  then show ?case by simp
next
  case (Cons x rest)
  let ?v = "Some \<lparr>address = ntohl pf x, hostName = host\<rparr>"
  from Cons.prems have rec:
    "fill_array_r pf newobj host rest (i + 1) (ret[i := ?v]) = Some ret'"
    by (simp split: if_splits)
  have "ret' = take (i + 1) (ret[i := ?v]) @ map (\<lambda>a. Some \<lparr>address = ntohl pf a, hostName = host\<rparr>) rest"
    using Cons.IH[OF rec] Cons.prems by simp
  moreover have "take (i + 1) (ret[i := ?v]) = take i ret @ [?v]"
    using Cons.prems by (simp add: take_Suc_conv_app_nth)
  ultimately show ?case by simp
qed


lemma gai_Inr:
  assumes "lookupAllHostAddr_gai pf env gai (Some hostname) = (Inr ret, qs)"
  shows "\<exists>resNew. copy_unique (malloc_ok env) (snd (gai hostname)) [] = Some resNew
          \<and> fill_array pf (new_object_ok env) hostname (length resNew) resNew 0
                (replicate (length resNew) None) = Some ret"
  using assms unfolding lookupAllHostAddr_gai_def
  by (auto simp: Let_def split: if_splits prod.splits option.splits)

lemma gai_Inr_shape:
  assumes "lookupAllHostAddr_gai pf env gai (Some hostname) = (Inr ret, qs)"
  shows "ret = map (\<lambda>a. Some \<lparr>address = ntohl pf a, hostName = hostname\<rparr>)
                 (rev (first_occurrences (map ai_addr (snd (gai hostname)))))"
proof -
  from gai_Inr[OF assms] obtain resNew where
    cu: "copy_unique (malloc_ok env) (snd (gai hostname)) [] = Some resNew" and
    fa: "fill_array pf (new_object_ok env) hostname (length resNew) resNew 0
                (replicate (length resNew) None) = Some ret"
    by blast
  from copy_unique_gen[OF cu] have m: "map ai_addr resNew = first_occurrences (map ai_addr (snd (gai hostname)))"
    by simp
  from fill_array_gen[OF fa] have
    "ret = map (\<lambda>a. Some \<lparr>address = ntohl pf (ai_addr a), hostName = hostname\<rparr>) (rev resNew)"
    by simp
  also have "\<dots> = map (\<lambda>a. Some \<lparr>address = ntohl pf a, hostName = hostname\<rparr>) (rev (map ai_addr resNew))"
    by (simp add: rev_map)
  finally show ?thesis by (simp add: m)
qed

lemma r_Inr_shape:
  assumes "lookupAllHostAddr_r pf env g (Some hostname) = (Inr ret, qs)"
  shows "\<exists>h. (fst (g hostname HENT_BUF_SIZE) = Some h \<or>
              fst (g hostname HENT_BUF_SIZE) = None \<and> fst (g hostname BIG_HENT_BUF_SIZE) = Some h)
          \<and> ret = map (\<lambda>a. Some \<lparr>address = ntohl pf a, hostName = hostname\<rparr>) (h_addr_list h)"
proof -
  from assms obtain h where
    h: "fst (g hostname HENT_BUF_SIZE) = Some h \<or>
              fst (g hostname HENT_BUF_SIZE) = None \<and> fst (g hostname BIG_HENT_BUF_SIZE) = Some h"
    and fa: "fill_array_r pf (new_object_ok env) hostname (h_addr_list h) 0
                (replicate (length (h_addr_list h)) None) = Some ret"
    unfolding lookupAllHostAddr_r_def
    by (auto simp: Let_def split: if_splits prod.splits option.splits)
  from fill_array_r_gen[OF fa] have "ret = map (\<lambda>a. Some \<lparr>address = ntohl pf a, hostName = hostname\<rparr>) (h_addr_list h)"
    by simp
  with h show ?thesis by blast
qed

text \<open>
  Claim C1, as the code has it. In the \<^verbatim>\<open>getaddrinfo\<close> build the returned array holds
  every address once, and lists them in the reverse of the order of their first occurrence
  in the resolver's record list (the \<open>i\<close>-th unique record goes to index
  \<^verbatim>\<open>retLen - i - 1\<close>). In the \<^verbatim>\<open>gethostbyname_r\<close> build the returned array is the
  resolver's address list as it is, in its order, duplicates included.
\<close>

theorem lookupAllHostAddr_addresses:
  "(lookupAllHostAddr_gai pf env gai (Some hostname) = (Inr ret, qs) \<longrightarrow>
      map (map_option address) ret =
        map (\<lambda>a. Some (ntohl pf a)) (rev (first_occurrences (map ai_addr (snd (gai hostname)))))
      \<and> distinct (map (map_option address) ret))
   \<and> (lookupAllHostAddr_r pf env g (Some hostname) = (Inr ret, qs) \<longrightarrow>
      (\<exists>h. (fst (g hostname HENT_BUF_SIZE) = Some h \<or>
              fst (g hostname HENT_BUF_SIZE) = None \<and> fst (g hostname BIG_HENT_BUF_SIZE) = Some h)
          \<and> map (map_option address) ret = map (\<lambda>a. Some (ntohl pf a)) (h_addr_list h)))"
proof (intro conjI impI)
  assume a: "lookupAllHostAddr_gai pf env gai (Some hostname) = (Inr ret, qs)"
  show m: "map (map_option address) ret =
        map (\<lambda>a. Some (ntohl pf a)) (rev (first_occurrences (map ai_addr (snd (gai hostname)))))"
    by (simp add: gai_Inr_shape[OF a] comp_def)
  have "inj (\<lambda>a. Some (ntohl pf a))" by (simp add: inj_on_def ntohl_inj)
  then show "distinct (map (map_option address) ret)"
    unfolding m by (simp add: distinct_map first_occurrences_distinct inj_on_def)
next
  assume a: "lookupAllHostAddr_r pf env g (Some hostname) = (Inr ret, qs)"
  from r_Inr_shape[OF a] obtain h where
    h: "fst (g hostname HENT_BUF_SIZE) = Some h \<or>
              fst (g hostname HENT_BUF_SIZE) = None \<and> fst (g hostname BIG_HENT_BUF_SIZE) = Some h"
    and r: "ret = map (\<lambda>a. Some \<lparr>address = ntohl pf a, hostName = hostname\<rparr>) (h_addr_list h)"
    by blast
  have "map (map_option address) ret = map (\<lambda>a. Some (ntohl pf a)) (h_addr_list h)"
    by (simp add: r comp_def)
  with h show "\<exists>h. (fst (g hostname HENT_BUF_SIZE) = Some h \<or>
              fst (g hostname HENT_BUF_SIZE) = None \<and> fst (g hostname BIG_HENT_BUF_SIZE) = Some h)
          \<and> map (map_option address) ret = map (\<lambda>a. Some (ntohl pf a)) (h_addr_list h)"
    by blast
qed

lemma gai_dup_run:
  "lookupAllHostAddr_gai pf_be env_ok gai_dup (Some ''multi'') =
     (Inr [Some \<lparr>address = 2, hostName = ''multi''\<rparr>, Some \<lparr>address = 1, hostName = ''multi''\<rparr>],
      [''multi''])"
  by (simp add: lookupAllHostAddr_gai_def pf_be_def env_ok_def gai_dup_def isspace_def
      first_char_def ntohl_def Let_def)

lemma ghbn_dup_run:
  "lookupAllHostAddr_r pf_be env_ok ghbn_dup (Some ''multi'') =
     (Inr [Some \<lparr>address = 1, hostName = ''multi''\<rparr>, Some \<lparr>address = 2, hostName = ''multi''\<rparr>,
           Some \<lparr>address = 1, hostName = ''multi''\<rparr>],
      [''multi''])"
  by (simp add: lookupAllHostAddr_r_def pf_be_def env_ok_def ghbn_dup_def isspace_def
      first_char_def ntohl_def Let_def HENT_BUF_SIZE_def)

text \<open>The theorem at the three-record resolver, whose first and third record share an address.\<close>

theorem lookupAllHostAddr_addresses_witness:
  "map (map_option address)
      [Some \<lparr>address = 2, hostName = ''multi''\<rparr>, Some \<lparr>address = 1, hostName = ''multi''\<rparr>]
     = map (\<lambda>a. Some (ntohl pf_be a)) (rev (first_occurrences (map ai_addr (snd (gai_dup ''multi'')))))
   \<and> (\<exists>h. (fst (ghbn_dup ''multi'' HENT_BUF_SIZE) = Some h \<or>
              fst (ghbn_dup ''multi'' HENT_BUF_SIZE) = None \<and> fst (ghbn_dup ''multi'' BIG_HENT_BUF_SIZE) = Some h)
          \<and> map (map_option address)
                [Some \<lparr>address = 1, hostName = ''multi''\<rparr>, Some \<lparr>address = 2, hostName = ''multi''\<rparr>,
                 Some \<lparr>address = 1, hostName = ''multi''\<rparr>]
               = map (\<lambda>a. Some (ntohl pf_be a)) (h_addr_list h))"
  using lookupAllHostAddr_addresses [of pf_be env_ok gai_dup "''multi''" _ "[''multi'']" ghbn_dup]
    gai_dup_run ghbn_dup_run
  by blast

text \<open>
  Claim C1 as stated fails there: the \<^verbatim>\<open>getaddrinfo\<close> build returns 2 before 1 although 1
  occurs first, and the \<^verbatim>\<open>gethostbyname_r\<close> build returns address 1 twice.
\<close>

theorem lookupAllHostAddr_order_counterexample:
  "result_addresses (fst (lookupAllHostAddr_gai pf_be env_ok gai_dup (Some ''multi'')))
      = Some [Some 2, Some 1]
   \<and> first_occurrences (map (ntohl pf_be \<circ> ai_addr) (snd (gai_dup ''multi''))) = [1, 2]
   \<and> result_addresses (fst (lookupAllHostAddr_r pf_be env_ok ghbn_dup (Some ''multi'')))
      = Some [Some 1, Some 2, Some 1]"
  by (simp add: gai_dup_run ghbn_dup_run result_addresses_def)
    (simp add: gai_dup_def ntohl_def pf_be_def)

text \<open>
  Claim C7, as the code has it: every element of a returned array carries the name the
  caller passed in, in both builds, whatever canonical name the resolver reported.
\<close>

theorem lookupAllHostAddr_hostName:
  "(lookupAllHostAddr_gai pf env gai (Some hostname) = (Inr ret, qs) \<longrightarrow>
      map (map_option hostName) ret = replicate (length ret) (Some hostname))
   \<and> (lookupAllHostAddr_r pf env g (Some hostname) = (Inr ret, qs) \<longrightarrow>
      map (map_option hostName) ret = replicate (length ret) (Some hostname))"
proof (intro conjI impI)
  assume a: "lookupAllHostAddr_gai pf env gai (Some hostname) = (Inr ret, qs)"
  show "map (map_option hostName) ret = replicate (length ret) (Some hostname)"
    by (simp add: gai_Inr_shape[OF a] comp_def map_replicate_const)
next
  assume a: "lookupAllHostAddr_r pf env g (Some hostname) = (Inr ret, qs)"
  from r_Inr_shape[OF a] obtain h :: hostent where
    r: "ret = map (\<lambda>a. Some \<lparr>address = ntohl pf a, hostName = hostname\<rparr>) (h_addr_list h)"
    by blast
  show "map (map_option hostName) ret = replicate (length ret) (Some hostname)"
    by (simp add: r comp_def map_replicate_const)
qed

text \<open>The theorem at the three-record resolver.\<close>

theorem lookupAllHostAddr_hostName_witness:
  "map (map_option hostName)
      [Some \<lparr>address = 2, hostName = ''multi''\<rparr>, Some \<lparr>address = 1, hostName = ''multi''\<rparr>]
     = replicate (length [Some \<lparr>address = 2, hostName = ''multi''\<rparr>,
                          Some \<lparr>address = 1, hostName = ''multi''\<rparr>]) (Some ''multi'')
   \<and> map (map_option hostName)
      [Some \<lparr>address = 1, hostName = ''multi''\<rparr>, Some \<lparr>address = 2, hostName = ''multi''\<rparr>,
       Some \<lparr>address = 1, hostName = ''multi''\<rparr>]
     = replicate (length [Some \<lparr>address = 1, hostName = ''multi''\<rparr>,
                          Some \<lparr>address = 2, hostName = ''multi''\<rparr>,
                          Some \<lparr>address = 1, hostName = ''multi''\<rparr>]) (Some ''multi'')"
  using lookupAllHostAddr_hostName [of pf_be env_ok gai_dup "''multi''" _ "[''multi'']"]
    lookupAllHostAddr_hostName [of pf_be env_ok _ "''multi''" _ "[''multi'']" ghbn_dup]
    gai_dup_run ghbn_dup_run
  by blast

text \<open>
  Claim C7 as stated fails there: the resolver reports the canonical name
  \<open>canon.example\<close>, and the entries are tagged with the input name \<open>multi\<close>.
\<close>

theorem lookupAllHostAddr_hostName_counterexample:
  "map ai_canonname (snd (gai_dup ''multi'')) =
      [Some ''canon.example'', Some ''canon.example'', Some ''canon.example'']
   \<and> result_names (fst (lookupAllHostAddr_gai pf_be env_ok gai_dup (Some ''multi'')))
      = Some [Some ''multi'', Some ''multi'']
   \<and> map_option h_name (fst (ghbn_dup ''multi'' HENT_BUF_SIZE)) = Some ''canon.example''
   \<and> result_names (fst (lookupAllHostAddr_r pf_be env_ok ghbn_dup (Some ''multi'')))
      = Some [Some ''multi'', Some ''multi'', Some ''multi'']"
  by (simp add: gai_dup_run ghbn_dup_run result_names_def)
    (simp add: gai_dup_def ghbn_dup_def)

text \<open>
  Claim C8, as the code has it. A name whose first character is whitespace is rejected
  with \<open>UnknownHostException\<close> before any resolver call in the \<^verbatim>\<open>getaddrinfo\<close> build, and
  in the \<^verbatim>\<open>gethostbyname_r\<close> build when compiled for Solaris. The empty name passes the
  guard (\<^verbatim>\<open>isspace\<close> of the terminating NUL is false) and is handed to the resolver.
\<close>

theorem lookupAllHostAddr_whitespace_guard:
  "(platform_chars_ok env \<and> isspace (first_char hostname) \<longrightarrow>
       lookupAllHostAddr_gai pf env gai (Some hostname)
         = (Inl (UnknownHostException (Some hostname)), []))
   \<and> (platform_chars_ok env \<and> solaris pf \<and> isspace (first_char hostname) \<longrightarrow>
       lookupAllHostAddr_r pf env g (Some hostname)
         = (Inl (UnknownHostException (Some hostname)), []))
   \<and> (platform_chars_ok env \<longrightarrow>
       resolver_queries (lookupAllHostAddr_gai pf env gai (Some [])) = ['''']
       \<and> resolver_queries (lookupAllHostAddr_r pf env g (Some [])) \<in> {[''''], ['''', '''']})"
proof (intro conjI impI)
  assume "platform_chars_ok env \<and> isspace (first_char hostname)"
  then show "lookupAllHostAddr_gai pf env gai (Some hostname)
         = (Inl (UnknownHostException (Some hostname)), [])"
    by (simp add: lookupAllHostAddr_gai_def)
next
  assume "platform_chars_ok env \<and> solaris pf \<and> isspace (first_char hostname)"
  then show "lookupAllHostAddr_r pf env g (Some hostname)
         = (Inl (UnknownHostException (Some hostname)), [])"
    by (simp add: lookupAllHostAddr_r_def)
next
  have ns: "\<not> isspace (first_char [])"
    by (simp add: isspace_def first_char_def)
  assume ok: "platform_chars_ok env"
  show "resolver_queries (lookupAllHostAddr_gai pf env gai (Some [])) = ['''']"
    using ok ns
    by (simp add: lookupAllHostAddr_gai_def resolver_queries_def Let_def
        split: prod.splits option.splits)
  show "resolver_queries (lookupAllHostAddr_r pf env g (Some [])) \<in> {[''''], ['''', '''']}"
    using ok ns
    by (simp add: lookupAllHostAddr_r_def resolver_queries_def Let_def
        split: prod.splits option.splits)
qed

text \<open>The theorem at a name that starts with a space, on a Solaris platform.\<close>

theorem lookupAllHostAddr_whitespace_guard_witness:
  "lookupAllHostAddr_gai pf_solaris env_ok gai_dup (Some '' multi'')
         = (Inl (UnknownHostException (Some '' multi'')), [])
   \<and> lookupAllHostAddr_r pf_solaris env_ok ghbn_dup (Some '' multi'')
         = (Inl (UnknownHostException (Some '' multi'')), [])
   \<and> resolver_queries (lookupAllHostAddr_gai pf_solaris env_ok gai_dup (Some [])) = ['''']
   \<and> resolver_queries (lookupAllHostAddr_r pf_solaris env_ok ghbn_dup (Some [])) \<in> {[''''], ['''', '''']}"
proof -
  have h: "platform_chars_ok env_ok" "solaris pf_solaris" "isspace (first_char '' multi'')"
    by (simp_all add: env_ok_def pf_solaris_def isspace_def first_char_def)
  show ?thesis
    using h lookupAllHostAddr_whitespace_guard [of env_ok "'' multi''" pf_solaris gai_dup ghbn_dup]
    by blast
qed

text \<open>
  Claim C8 as stated fails: the empty name is resolved and yields addresses; and off
  Solaris the \<^verbatim>\<open>gethostbyname_r\<close> build resolves a name that starts with a space.
\<close>

theorem lookupAllHostAddr_empty_name_counterexample:
  "lookupAllHostAddr_gai pf_be env_ok gai_dup (Some []) =
     (Inr [Some \<lparr>address = 2, hostName = []\<rparr>, Some \<lparr>address = 1, hostName = []\<rparr>], [''''])
   \<and> isspace (first_char '' multi'')
   \<and> lookupAllHostAddr_r pf_be env_ok ghbn_dup (Some '' multi'') =
     (Inr [Some \<lparr>address = 1, hostName = '' multi''\<rparr>, Some \<lparr>address = 2, hostName = '' multi''\<rparr>,
           Some \<lparr>address = 1, hostName = '' multi''\<rparr>], ['' multi''])"
  by (simp add: lookupAllHostAddr_gai_def lookupAllHostAddr_r_def pf_be_def env_ok_def
      gai_dup_def ghbn_dup_def isspace_def first_char_def ntohl_def Let_def HENT_BUF_SIZE_def)

section \<open>Checksum round trip\<close>

lemma ushort_at_bytes:
  "ushort_at pf (ushort_bytes pf w ! 0) (ushort_bytes pf w ! 1) = w"
  unfolding ushort_at_def ushort_bytes_def
  by (auto intro!: bit_word_eqI simp: bit_simps dest: bit_imp_le_length)

lemma ushort_at_bytes':
  "ushort_at pf (ushort_bytes pf w ! 0) (ushort_bytes pf w ! Suc 0) = w"
  using ushort_at_bytes[of pf w] by simp

lemma ushort_at_zero: "ushort_at pf 0 0 = 0"
  by (simp add: ushort_at_def)

lemma oc_norm_small: "t < 65536 \<Longrightarrow> oc_norm t = t"
  by (auto simp: oc_norm_def)

lemma oc_norm_le: "oc_norm t \<le> 65535"
proof (cases "t = 0")
  case True
  then show ?thesis by (simp add: oc_norm_def)
next
  case False
  have "(t - 1) mod 65535 < 65535" by simp
  then have "(t - 1) mod 65535 + 1 \<le> 65535" by linarith
  then show ?thesis using False by (simp only: oc_norm_def if_False)
qed

lemma oc_norm_add: "oc_norm (oc_norm x + y) = oc_norm (x + y)"
proof (cases "x = 0")
  case True
  then show ?thesis by (simp add: oc_norm_def)
next
  case False
  then have "oc_norm x + y - 1 = (x - 1) mod 65535 + y" by (simp add: oc_norm_def)
  moreover have "((x - 1) mod 65535 + y) mod 65535 = (x - 1 + y) mod 65535"
    by (simp add: mod_add_left_eq)
  moreover have "x - 1 + y = x + y - 1" using False by simp
  ultimately show ?thesis using False by (simp add: oc_norm_def)
qed

lemma unat_ones_add: "unat (ones_add a b) = oc_norm (unat a + unat b)"
proof -
  have a: "unat a < 65536" using unsigned_less[of a, where 'a = nat] by simp
  have b: "unat b < 65536" using unsigned_less[of b, where 'a = nat] by simp
  show ?thesis
  proof (cases "65536 \<le> unat a + unat b")
    case True
    then have r: "unat a + unat b - 65535 < 65536" using a b by simp
    have "(unat a + unat b - 1) mod 65535 = unat a + unat b - 1 - 65535"
      using True a b by (simp add: mod_if)
    moreover have "oc_norm (unat a + unat b) = (unat a + unat b - 1) mod 65535 + 1"
      using True by (simp only: oc_norm_def) auto
    ultimately have "oc_norm (unat a + unat b) = unat a + unat b - 65535"
      using True by arith
    moreover have "unat (of_nat (unat a + unat b - 65535) :: 16 word) = unat a + unat b - 65535"
      using r by (simp add: unat_of_nat)
    ultimately show ?thesis using True by (simp add: ones_add_def Let_def)
  next
    case False
    then have "unat (of_nat (unat a + unat b) :: 16 word) = unat a + unat b"
      by (simp only: unat_of_nat) simp
    then show ?thesis using False by (simp add: ones_add_def Let_def oc_norm_small)
  qed
qed

lemma unat_foldl_ones_add:
  "unat (foldl ones_add acc ws) = oc_norm (unat acc + sum_list (map unat ws))"
proof (induction ws arbitrary: acc)
  case Nil
  have "unat acc < 65536" using unsigned_less[of acc, where 'a = nat] by simp
  then show ?case by (simp add: oc_norm_small)
next
  case (Cons w ws)
  have "unat (foldl ones_add (ones_add acc w) ws)
      = oc_norm (oc_norm (unat acc + unat w) + sum_list (map unat ws))"
    by (simp add: Cons.IH unat_ones_add)
  then show ?case by (simp add: oc_norm_add add.assoc)
qed

lemma unat_ones_sum: "unat (ones_sum ws) = oc_norm (sum_list (map unat ws))"
  by (simp add: ones_sum_def unat_foldl_ones_add)

lemma unat_NOT16: "unat (NOT (x :: 16 word)) = 65535 - unat x"
proof -
  have "NOT x = 0xFFFF - x" by (simp add: not_eq_complement)
  moreover have "unat x < 65536" using unsigned_less[of x, where 'a = nat] by simp
  then have "x \<le> 0xFFFF" by (simp add: word_le_nat_alt)
  ultimately have "unat (NOT x) = unat (0xFFFF :: 16 word) - unat x"
    by (simp only: unat_sub)
  then show ?thesis by simp
qed

lemma oc_norm_complement: "oc_norm (t + (65535 - oc_norm t)) = 65535"
proof (cases "t = 0")
  case True
  then show ?thesis by (simp add: oc_norm_def)
next
  case False
  define q where "q = (t - 1) div 65535"
  define r where "r = (t - 1) mod 65535"
  have r: "r < 65535" by (simp add: r_def)
  have t: "t = 65535 * q + r + 1" using False by (simp add: q_def r_def)
  have n: "oc_norm t = r + 1" using False by (simp add: oc_norm_def r_def)
  have "t + (65535 - oc_norm t) - 1 = 65535 * q + 65534" using r n t by arith
  moreover have "(65535 * q + 65534) mod 65535 = (65534::nat)" by simp
  moreover have "t + (65535 - oc_norm t) \<noteq> 0" using False by simp
  ultimately show ?thesis by (simp add: oc_norm_def[of "t + (65535 - oc_norm t)"])
qed

lemma ones_sum_with_cksum:
  assumes "c = NOT (ones_sum (w0 # 0 # ws))"
  shows "ones_sum (w0 # c # ws) = 0xFFFF"
proof -
  let ?t = "unat w0 + sum_list (map unat ws)"
  have "unat c = 65535 - oc_norm ?t"
    by (simp add: assms unat_NOT16 unat_ones_sum)
  then have e: "unat w0 + (unat c + sum_list (map unat ws)) = ?t + (65535 - oc_norm ?t)"
    by simp
  have "unat (ones_sum (w0 # c # ws)) = oc_norm (unat w0 + (unat c + sum_list (map unat ws)))"
    by (simp add: unat_ones_sum)
  then have "unat (ones_sum (w0 # c # ws)) = oc_norm (?t + (65535 - oc_norm ?t))"
    by (simp only: e)
  then have "unat (ones_sum (w0 # c # ws)) = unat (0xFFFF :: 16 word)"
    by (simp add: oc_norm_complement)
  then show ?thesis by (simp only: word_unat_eq_iff)
qed

lemma set_icmp_cksum_ushorts:
  assumes "4 \<le> length bs"
  shows "\<exists>w0 ws. \<forall>c. ushorts pf (set_icmp_cksum pf c bs) = w0 # c # ws"
proof -
  from assms obtain b0 b1 b2 b3 rest where bs: "bs = b0 # b1 # b2 # b3 # rest"
    by (cases bs; cases "tl bs"; cases "tl (tl bs)"; cases "tl (tl (tl bs))") auto
  have "\<forall>c. ushorts pf (set_icmp_cksum pf c bs) = ushort_at pf b0 b1 # c # ushorts pf rest"
    by (simp add: bs set_icmp_cksum_def ushort_at_bytes')
  then show ?thesis by blast
qed

lemma cksum_store_verifies:
  assumes "4 \<le> length bs"
  shows "ones_sum (ushorts pf
            (set_icmp_cksum pf (in_cksum pf (set_icmp_cksum pf 0 bs)) bs)) = 0xFFFF"
proof -
  from set_icmp_cksum_ushorts[OF assms] obtain w0 ws where
    u: "\<And>c. ushorts pf (set_icmp_cksum pf c bs) = w0 # c # ws"
    by blast
  have "in_cksum pf (set_icmp_cksum pf 0 bs) = NOT (ones_sum (w0 # 0 # ws))"
    by (simp add: in_cksum_def u)
  then have "ones_sum (w0 # in_cksum pf (set_icmp_cksum pf 0 bs) # ws) = 0xFFFF"
    by (rule ones_sum_with_cksum)
  then show ?thesis by (simp add: u)
qed

lemma set_icmp_cksum_twice:
  "set_icmp_cksum pf c (set_icmp_cksum pf c0 bs) = set_icmp_cksum pf c bs"
  by (simp add: set_icmp_cksum_def list_update_swap[of 2 3])

lemma echo_request_sum:
  "ones_sum (ushorts pf (echo_request pf os pid seq tv)) = 0xFFFF"
proof -
  let ?packet = "[ICMP_ECHO, 0, stack_bytes os 2, stack_bytes os 3,
             ucast (drop_bit 8 pid), ucast pid,
             ucast (drop_bit 8 (ucast seq :: 16 word)), ucast (ucast seq :: 16 word)]
            @ tv @ map (stack_bytes os) [8 + length tv ..< ICMP_ADVLENMIN + length tv]"
  have l: "4 \<le> length ?packet" by simp
  have "echo_request pf os pid seq tv
      = set_icmp_cksum pf (in_cksum pf (set_icmp_cksum pf 0 ?packet)) ?packet"
    by (simp only: echo_request_def Let_def set_icmp_cksum_twice)
  then show ?thesis using cksum_store_verifies[OF l, of pf] by simp
qed

text \<open>
  Claim C6. For every packet that has a checksum field (at least four bytes; an odd
  trailing byte is padded with zero): compute the checksum with the field set to zero,
  store it in the field, and sum the whole packet again. The one's-complement sum is then
  the all-ones word \<open>0xFFFF\<close>, whose value in one's-complement arithmetic is zero, and
  the checksum routine run over the whole packet returns \<open>0\<close>. The echo request built at
  lines 640-650 is such a packet.
\<close>

theorem in_cksum_roundtrip:
  assumes "4 \<le> length bs"
  shows "ones_sum (ushorts pf
            (set_icmp_cksum pf (in_cksum pf (set_icmp_cksum pf 0 bs)) bs)) = 0xFFFF
         \<and> ones_value (ones_sum (ushorts pf
            (set_icmp_cksum pf (in_cksum pf (set_icmp_cksum pf 0 bs)) bs))) = 0
         \<and> in_cksum pf
            (set_icmp_cksum pf (in_cksum pf (set_icmp_cksum pf 0 bs)) bs) = 0
         \<and> ones_value (ones_sum (ushorts pf (echo_request pf os pid seq tv))) = 0
         \<and> in_cksum pf (echo_request pf os pid seq tv) = 0"
  using cksum_store_verifies[OF assms, of pf] echo_request_sum[of pf os pid seq tv]
  by (simp add: in_cksum_def ones_value_def)

text \<open>The theorem at a nine-byte packet on a little-endian host.\<close>

theorem in_cksum_roundtrip_witness:
  "4 \<le> length [8, 0, 0xAB, 0xCD, 0x12, 0x34, 0, 1, 0x7F :: 8 word]
   \<and> ones_value (ones_sum (ushorts pf_linux
            (set_icmp_cksum pf_linux
               (in_cksum pf_linux (set_icmp_cksum pf_linux 0 [8, 0, 0xAB, 0xCD, 0x12, 0x34, 0, 1, 0x7F]))
               [8, 0, 0xAB, 0xCD, 0x12, 0x34, 0, 1, 0x7F]))) = 0
   \<and> in_cksum pf_linux
            (set_icmp_cksum pf_linux
               (in_cksum pf_linux (set_icmp_cksum pf_linux 0 [8, 0, 0xAB, 0xCD, 0x12, 0x34, 0, 1, 0x7F]))
               [8, 0, 0xAB, 0xCD, 0x12, 0x34, 0, 1, 0x7F]) = 0
   \<and> in_cksum pf_linux (echo_request pf_linux os_silent 0x1234 1 (replicate 16 0)) = 0"
proof -
  have h: "4 \<le> length [8, 0, 0xAB, 0xCD, 0x12, 0x34, 0, 1, 0x7F :: 8 word]" by simp
  show ?thesis
    using h in_cksum_roundtrip [OF h, of pf_linux os_silent "0x1234" 1 "replicate 16 0"] by blast
qed

section \<open>Local host name: fallbacks and canonical name\<close>

lemma dot_prefixI:
  fixes s l :: string
  assumes "length s < length l" and "strncmp_eq s l (length s)" and "l ! length s = CHR ''.''"
  shows "proper_dot_prefix s l"
proof -
  from assms(2) have t: "take (length s) l = s" by (simp add: strncmp_eq_def)
  have "take (Suc (length s)) l = take (length s) l @ [l ! length s]"
    using assms(1) by (simp add: take_Suc_conv_app_nth)
  then show ?thesis using t assms(3) by (simp add: proper_dot_prefix_def)
qed

lemma getLocalHostName_r_replaced:
  assumes "getLocalHostName_r M env (Some written) ghbn ghba = Inr name"
    and "name \<noteq> take M written"
  shows "\<exists>hp hp2. ghbn (take M written) = Some hp \<and> ghba hp = Some hp2
           \<and> name = h_name hp2 \<and> length name \<le> M
           \<and> length (take M written) < length name
           \<and> proper_dot_prefix (take M written) name"
  using assms unfolding getLocalHostName_r_def strcpy_def NewStringUTF_def Let_def
  by (auto split: option.splits if_splits sum.splits intro: dot_prefixI)

lemma getLocalHostName_r_returns:
  assumes "new_string_ok env"
    and "\<forall>hp hp2. ghbn (take M written) = Some hp \<and> ghba hp = Some hp2 \<longrightarrow> length (h_name hp2) \<le> M"
  shows "\<exists>name. getLocalHostName_r M env (Some written) ghbn ghba = Inr name"
proof (cases "ghbn (take M written)")
  case None
  then show ?thesis using assms(1)
    by (simp add: getLocalHostName_r_def NewStringUTF_def Let_def)
next
  case (Some hp)
  show ?thesis
  proof (cases "ghba hp")
    case None
    then show ?thesis using assms(1) Some
      by (simp add: getLocalHostName_r_def NewStringUTF_def Let_def)
  next
    case (Some hp2)
    with \<open>ghbn (take M written) = Some hp\<close> assms(2) have "length (h_name hp2) \<le> M" by blast
    then show ?thesis using assms(1) Some \<open>ghbn (take M written) = Some hp\<close>
      by (simp add: getLocalHostName_r_def NewStringUTF_def strcpy_def Let_def)
  qed
qed

text \<open>
  Claim C9, as the code has it by design; what happens when \<^verbatim>\<open>strcpy\<close> is given a name
  that does not fit the buffer is left out. Provided the result string can be allocated:
  the result is \<open>localhost\<close> when the OS name is unavailable, and the OS name when the
  forward lookup fails. In the \<^verbatim>\<open>gethostbyname_r\<close> build the result is the OS name also
  when the reverse lookup fails; a result other than the OS name is the reverse-resolved
  name, strictly longer than the OS name and with the OS name followed by a dot as
  prefix; and a name is returned whenever the reverse-resolved name has at most
  \<^verbatim>\<open>MAXHOSTNAMELEN\<close> characters. In the \<^verbatim>\<open>getaddrinfo\<close> build, whenever the forward lookup
  succeeds the result is what \<^verbatim>\<open>getnameinfo\<close> left in the buffer, with no test of its
  error code, of length or of prefix: the OS name only if a failing \<^verbatim>\<open>getnameinfo\<close> left
  the buffer as it was.
\<close>

theorem getLocalHostName_fallbacks:
  assumes "new_string_ok env" and "length ''localhost'' \<le> M" and "length ''localhost'' \<le> N"
  shows "getLocalHostName_r M env None ghbn ghba = Inr ''localhost''
   \<and> getLocalHostName_gai N env None gai gni = Inr ''localhost''
   \<and> (ghbn (take M written) = None \<longrightarrow>
        getLocalHostName_r M env (Some written) ghbn ghba = Inr (take M written))
   \<and> (ghbn (take M written) = Some hp \<and> ghba hp = None \<longrightarrow>
        getLocalHostName_r M env (Some written) ghbn ghba = Inr (take M written))
   \<and> (getLocalHostName_r M env (Some written) ghbn ghba = Inr name \<and> name \<noteq> take M written \<longrightarrow>
        (\<exists>hp hp2. ghbn (take M written) = Some hp \<and> ghba hp = Some hp2
           \<and> name = h_name hp2 \<and> length name \<le> M
           \<and> length (take M written) < length name
           \<and> proper_dot_prefix (take M written) name))
   \<and> ((\<forall>hp hp2. ghbn (take M written) = Some hp \<and> ghba hp = Some hp2
           \<longrightarrow> length (h_name hp2) \<le> M) \<longrightarrow>
        (\<exists>name. getLocalHostName_r M env (Some written) ghbn ghba = Inr name))
   \<and> (fst (gai hostname) \<noteq> 0 \<longrightarrow>
        getLocalHostName_gai N env (Some hostname) gai gni = Inr hostname)
   \<and> (fst (gai hostname) = 0 \<longrightarrow>
        getLocalHostName_gai N env (Some hostname) gai gni
          = Inr (snd (gni (snd (gai hostname)) hostname)))
   \<and> (fst (gai hostname) = 0 \<and> fst (gni (snd (gai hostname)) hostname) \<noteq> 0
        \<and> snd (gni (snd (gai hostname)) hostname) = hostname \<longrightarrow>
        getLocalHostName_gai N env (Some hostname) gai gni = Inr hostname)"
proof -
  have r: "getLocalHostName_r M env None ghbn ghba = Inr ''localhost''"
    "ghbn (take M written) = None \<longrightarrow>
        getLocalHostName_r M env (Some written) ghbn ghba = Inr (take M written)"
    "ghbn (take M written) = Some hp \<and> ghba hp = None \<longrightarrow>
        getLocalHostName_r M env (Some written) ghbn ghba = Inr (take M written)"
    using assms(1,2)
    by (simp_all add: getLocalHostName_r_def NewStringUTF_def strcpy_def Let_def)
  have r5: "getLocalHostName_r M env (Some written) ghbn ghba = Inr name \<and> name \<noteq> take M written \<longrightarrow>
        (\<exists>hp hp2. ghbn (take M written) = Some hp \<and> ghba hp = Some hp2
           \<and> name = h_name hp2 \<and> length name \<le> M
           \<and> length (take M written) < length name
           \<and> proper_dot_prefix (take M written) name)"
    using getLocalHostName_r_replaced[of M env written ghbn ghba name] by blast
  have r6: "(\<forall>hp hp2. ghbn (take M written) = Some hp \<and> ghba hp = Some hp2
           \<longrightarrow> length (h_name hp2) \<le> M) \<longrightarrow>
        (\<exists>name. getLocalHostName_r M env (Some written) ghbn ghba = Inr name)"
    using getLocalHostName_r_returns[OF assms(1), of ghbn M written ghba] by blast
  have g: "getLocalHostName_gai N env None gai gni = Inr ''localhost''"
    "fst (gai hostname) \<noteq> 0 \<longrightarrow>
        getLocalHostName_gai N env (Some hostname) gai gni = Inr hostname"
    "fst (gai hostname) = 0 \<longrightarrow>
        getLocalHostName_gai N env (Some hostname) gai gni
          = Inr (snd (gni (snd (gai hostname)) hostname))"
    "fst (gai hostname) = 0 \<and> fst (gni (snd (gai hostname)) hostname) \<noteq> 0
        \<and> snd (gni (snd (gai hostname)) hostname) = hostname \<longrightarrow>
        getLocalHostName_gai N env (Some hostname) gai gni = Inr hostname"
    using assms(1,3)
    by (simp_all add: getLocalHostName_gai_def NewStringUTF_def strcpy_def split: prod.splits)
  from r r5 r6 g show ?thesis by (intro conjI)
qed

lemma ghba_fqdn_run:
  "getLocalHostName_r 64 env_ok (Some ''host'') ghbn_host ghba_fqdn = Inr ''host.example.org''"
  by (simp add: getLocalHostName_r_def ghbn_host_def ghba_fqdn_def strncmp_eq_def
      NewStringUTF_def strcpy_def env_ok_def Let_def)

text \<open>
  The theorem with buffers of 64 and 1025 characters, at lookups that succeed and at
  lookups that fail, in both builds.
\<close>

theorem getLocalHostName_fallbacks_witness:
  "getLocalHostName_r 64 env_ok None ghbn_host ghba_fqdn = Inr ''localhost''
   \<and> getLocalHostName_gai 1025 env_ok None fwd_ok rev_other = Inr ''localhost''
   \<and> getLocalHostName_r 64 env_ok (Some ''host'') ghbn_host ghba_fqdn = Inr ''host.example.org''
   \<and> proper_dot_prefix ''host'' ''host.example.org''
   \<and> getLocalHostName_r 64 env_ok (Some ''host'') ghbn_none ghba_fqdn = Inr ''host''
   \<and> getLocalHostName_r 64 env_ok (Some ''host'') ghbn_host ghba_none = Inr ''host''
   \<and> getLocalHostName_gai 1025 env_ok (Some ''myhost'') fwd_ok rev_other = Inr ''other''
   \<and> getLocalHostName_gai 1025 env_ok (Some ''myhost'') fwd_fail rev_other = Inr ''myhost''
   \<and> getLocalHostName_gai 1025 env_ok (Some ''myhost'') fwd_ok rev_fail = Inr ''myhost''"
proof -
  let ?hp = "\<lparr>h_name = ''host'', h_addr_list = [1]\<rparr>"
  have p: "new_string_ok env_ok" "length ''localhost'' \<le> (64::nat)"
    "length ''localhost'' \<le> (1025::nat)"
    by (simp_all add: env_ok_def)
  note T = getLocalHostName_fallbacks [OF p]
  have t: "take 64 ''host'' = ''host''" by simp
  have fits: "\<forall>hp hp2. ghbn_host (take 64 ''host'') = Some hp \<and> ghba_fqdn hp = Some hp2
           \<longrightarrow> length (h_name hp2) \<le> 64"
    by (auto simp: ghba_fqdn_def)
  have h1: "fst (fwd_ok ''myhost'') = 0"
    "snd (rev_other (snd (fwd_ok ''myhost'')) ''myhost'') = ''other''"
    by (simp_all add: fwd_ok_def rev_other_def)
  have h2: "fst (fwd_fail ''myhost'') \<noteq> 0"
    by (simp add: fwd_fail_def)
  have h3: "fst (fwd_ok ''myhost'') = 0
      \<and> fst (rev_fail (snd (fwd_ok ''myhost'')) ''myhost'') \<noteq> 0
      \<and> snd (rev_fail (snd (fwd_ok ''myhost'')) ''myhost'') = ''myhost''"
    by (simp add: fwd_ok_def rev_fail_def)
  have h4: "ghbn_none (take 64 ''host'') = None"
    by (simp add: ghbn_none_def)
  have h5: "ghbn_host (take 64 ''host'') = Some ?hp \<and> ghba_none ?hp = None"
    by (simp add: ghbn_host_def ghba_none_def)
  have l0: "getLocalHostName_r 64 env_ok None ghbn_host ghba_fqdn = Inr ''localhost''"
    using T [of ghbn_host ghba_fqdn fwd_ok rev_other "''host''" ?hp "''x''" "''myhost''"]
    by blast
  have l1: "getLocalHostName_gai 1025 env_ok None fwd_ok rev_other = Inr ''localhost''"
    using T [of ghbn_host ghba_fqdn fwd_ok rev_other "''host''" ?hp "''x''" "''myhost''"]
    by blast
  have ex: "\<exists>name. getLocalHostName_r 64 env_ok (Some ''host'') ghbn_host ghba_fqdn = Inr name"
    using T [of ghbn_host ghba_fqdn fwd_ok rev_other "''host''" ?hp "''x''" "''myhost''"] fits
    by blast
  have a: "proper_dot_prefix ''host'' ''host.example.org''"
    using T [of ghbn_host ghba_fqdn fwd_ok rev_other "''host''" ?hp "''host.example.org''"
        "''myhost''"] ghba_fqdn_run t
    by auto
  have b: "getLocalHostName_r 64 env_ok (Some ''host'') ghbn_none ghba_fqdn = Inr ''host''"
    using T [of ghbn_none ghba_fqdn fwd_ok rev_other "''host''" ?hp "''x''" "''myhost''"] h4 t
    by simp
  have c: "getLocalHostName_r 64 env_ok (Some ''host'') ghbn_host ghba_none = Inr ''host''"
    using T [of ghbn_host ghba_none fwd_ok rev_other "''host''" ?hp "''x''" "''myhost''"] h5 t
    by simp
  have d: "getLocalHostName_gai 1025 env_ok (Some ''myhost'') fwd_ok rev_other = Inr ''other''"
    using T [of ghbn_host ghba_fqdn fwd_ok rev_other "''host''" ?hp "''x''" "''myhost''"] h1
    by simp
  have e: "getLocalHostName_gai 1025 env_ok (Some ''myhost'') fwd_fail rev_other = Inr ''myhost''"
    using T [of ghbn_host ghba_fqdn fwd_fail rev_other "''host''" ?hp "''x''" "''myhost''"] h2
    by blast
  have f: "getLocalHostName_gai 1025 env_ok (Some ''myhost'') fwd_ok rev_fail = Inr ''myhost''"
    using T [of ghbn_host ghba_fqdn fwd_ok rev_fail "''host''" ?hp "''x''" "''myhost''"] h3
    by blast
  from l0 l1 ghba_fqdn_run a b c d e f show ?thesis by (intro conjI)
qed

text \<open>
  Claim C9 as stated fails in the \<^verbatim>\<open>getaddrinfo\<close> build: with both lookups succeeding the
  reverse-resolved name \<open>other\<close> replaces the OS name \<open>myhost\<close>, though it is neither
  longer nor an extension of it; and after a \<^verbatim>\<open>getnameinfo\<close> that failed having written
  into the buffer, the result is what it wrote, not the OS name.
\<close>

theorem getLocalHostName_gai_counterexample:
  "getLocalHostName_gai 1025 env_ok (Some ''myhost'') fwd_ok rev_other = Inr ''other''
   \<and> \<not> length ''myhost'' < length ''other''
   \<and> \<not> proper_dot_prefix ''myhost'' ''other''
   \<and> fst (rev_fail_partial (snd (fwd_ok ''myhost'')) ''myhost'') \<noteq> 0
   \<and> getLocalHostName_gai 1025 env_ok (Some ''myhost'') fwd_ok rev_fail_partial = Inr ''oth''"
  by (simp add: getLocalHostName_gai_def fwd_ok_def rev_other_def rev_fail_partial_def
      proper_dot_prefix_def NewStringUTF_def env_ok_def)

text \<open>
  The \<^verbatim>\<open>strcpy\<close> of line 381 with \<^verbatim>\<open>MAXHOSTNAMELEN\<close> 64 and a reverse-resolved name of 69
  characters that extends the OS name: the copy runs past the end of \<^verbatim>\<open>hostname\<close>.
\<close>

lemma getLocalHostName_r_overrun:
  "getLocalHostName_r 64 env_ok (Some ''host'') ghbn_host ghba_long = Inl BufferOverrun"
  by (simp add: getLocalHostName_r_def ghbn_host_def ghba_long_def strncmp_eq_def
      NewStringUTF_def strcpy_def env_ok_def Let_def nth_append)

section \<open>Reachability probe: entry, fallback and TCP outcomes\<close>

text \<open>
  Claim C10. If the target address array does not have length exactly 4, the probe
  returns false at once: the outcome is \<open>Unreachable\<close> (no exception) and no system call
  has been made, so no socket was opened.
\<close>

theorem isReachable0_bad_length:
  "length addrArray \<noteq> 4 \<Longrightarrow>
     isReachable0 pf os addrArray timeout ifArray ttl = Some (Unreachable, [])"
  by (simp add: isReachable0_def)

text \<open>The theorem at an array of three bytes.\<close>

theorem isReachable0_bad_length_witness:
  "length [10, 0, 0 :: jbyte] \<noteq> 4
   \<and> isReachable0 pf_linux os_silent [10, 0, 0] 3000 None 0 = Some (Unreachable, [])"
proof -
  have h: "length [10, 0, 0 :: jbyte] \<noteq> 4" by simp
  show ?thesis
    using h isReachable0_bad_length [OF h, of pf_linux os_silent 3000 None 0] by simp
qed

text \<open>
  Claim C3. When the raw ICMP socket cannot be opened (\<^verbatim>\<open>JVM_Socket\<close> returns -1), the
  result of the probe is the result of the TCP part, entered with nothing thrown: the
  failure itself is not reported. When the stream socket cannot be created either, the
  outcome is a \<open>ProbeError\<close> and the two socket calls are all the probe did.
\<close>

theorem isReachable0_fallback:
  "(length addrArray = 4 \<and> raw_socket os = - 1 \<longrightarrow>
      isReachable0 pf os addrArray timeout ifArray ttl =
        Some (tcp_probe pf os (htonl pf (addr_of_bytes addrArray)) timeout
                (map_option (\<lambda>a. htonl pf (addr_of_bytes (get_region4 a))) ifArray) ttl
                [RawSocket (- 1)]))
   \<and> (length addrArray = 4 \<and> raw_socket os = - 1 \<and> stream_socket os = JVM_IO_ERR os \<longrightarrow>
      isReachable0 pf os addrArray timeout ifArray ttl =
        Some (ProbeError ''Can't create socket'', [RawSocket (- 1), StreamSocket (JVM_IO_ERR os)]))"
  by (simp add: isReachable0_def tcp_probe_def get_region4_def Let_def)

text \<open>
  The theorem at a system that refuses the raw socket, and at one that refuses both
  sockets.
\<close>

theorem isReachable0_fallback_witness:
  "isReachable0 pf_linux os_unprivileged [10, 0, 0, 1] 3000 None 0 =
     Some (Reachable, [RawSocket (- 1), StreamSocket 4, SetNonBlocking, Connect 0x0100000A 7,
                       WaitConnect 3000 5, GetSockOpt, Close])
   \<and> isReachable0 pf_linux os_no_sockets [10, 0, 0, 1] 3000 None 0 =
        Some (ProbeError ''Can't create socket'', [RawSocket (- 1), StreamSocket (- 1)])"
proof -
  have h: "length [10, 0, 0, 1 :: jbyte] = 4 \<and> raw_socket os_unprivileged = - 1"
    "length [10, 0, 0, 1 :: jbyte] = 4 \<and> raw_socket os_no_sockets = - 1
       \<and> stream_socket os_no_sockets = JVM_IO_ERR os_no_sockets"
    by (simp_all add: os_unprivileged_def os_no_sockets_def os_silent_def)
  have a: "htonl pf_linux (addr_of_bytes [10, 0, 0, 1]) = 0x0100000A"
    by (simp add: htonl_def pf_linux_def addr_of_bytes_def bswap32_def)
  have t: "tcp_probe pf_linux os_unprivileged 0x0100000A 3000 None 0 [RawSocket (- 1)] =
     (Reachable, [RawSocket (- 1), StreamSocket 4, SetNonBlocking, Connect 0x0100000A 7,
                       WaitConnect 3000 5, GetSockOpt, Close])"
    by (simp add: tcp_probe_def os_unprivileged_def os_silent_def pending_error_def Let_def)
  have j: "JVM_IO_ERR os_no_sockets = - 1"
    by (simp add: os_no_sockets_def os_silent_def)
  have "isReachable0 pf_linux os_unprivileged [10, 0, 0, 1] 3000 None 0 =
      Some (tcp_probe pf_linux os_unprivileged 0x0100000A 3000 None 0 [RawSocket (- 1)])"
    using isReachable0_fallback [of "[10, 0, 0, 1]" os_unprivileged pf_linux 3000 None 0,
        THEN conjunct1, rule_format, OF h(1)]
    by (simp add: a)
  moreover have "isReachable0 pf_linux os_no_sockets [10, 0, 0, 1] 3000 None 0 =
      Some (ProbeError ''Can't create socket'', [RawSocket (- 1), StreamSocket (- 1)])"
    using isReachable0_fallback [of "[10, 0, 0, 1]" os_no_sockets pf_linux 3000 None 0,
        THEN conjunct2, rule_format, OF h(2)]
    by (simp add: j)
  ultimately show ?thesis by (simp add: t)
qed

text \<open>
  Claim C2. In TCP fallback mode (raw socket refused, stream socket created, bind not
  failing) the outcome is decided by \<^verbatim>\<open>connect\<close>: success or \<^verbatim>\<open>ECONNREFUSED\<close> gives
  \<open>Reachable\<close>; \<^verbatim>\<open>ENETUNREACH\<close>, \<^verbatim>\<open>EAFNOSUPPORT\<close>, \<^verbatim>\<open>EADDRNOTAVAIL\<close> and, on Linux,
  \<^verbatim>\<open>EINVAL\<close> give \<open>Unreachable\<close>; any other error but \<^verbatim>\<open>EINPROGRESS\<close> gives
  \<open>ProbeError\<close>; with the connection in progress, a wait that times out gives
  \<open>Unreachable\<close>, and otherwise a pending error of none or \<^verbatim>\<open>ECONNREFUSED\<close> gives
  \<open>Reachable\<close> and any other pending error \<open>Unreachable\<close>.
\<close>

theorem tcp_probe_outcomes:
  assumes "length addrArray = 4" and "raw_socket os = - 1"
    and "stream_socket os \<noteq> JVM_IO_ERR os" and "ifArray = None \<or> 0 \<le> bind_res os"
  shows "map_option fst (isReachable0 pf os addrArray timeout ifArray ttl) =
     Some (if fst (connect_res os) = 0 \<or> snd (connect_res os) = ECONNREFUSED then Reachable
           else if snd (connect_res os) \<in> {ENETUNREACH, EAFNOSUPPORT, EADDRNOTAVAIL}
                   \<or> (linux pf \<and> snd (connect_res os) = EINVAL) then Unreachable
           else if snd (connect_res os) \<noteq> EINPROGRESS then ProbeError ''connect failed''
           else if sint (wait_connect os timeout) < 0 then Unreachable
           else if pending_error os = None \<or> pending_error os = Some ECONNREFUSED
             then Reachable
           else Unreachable)"
proof -
  have b: "\<not> (map_option (\<lambda>a. htonl pf (addr_of_bytes (get_region4 a))) ifArray \<noteq> None
              \<and> bind_res os < 0)"
    using assms(4) by auto
  have e: "isReachable0 pf os addrArray timeout ifArray ttl =
      Some (tcp_probe pf os (htonl pf (addr_of_bytes addrArray)) timeout
                (map_option (\<lambda>a. htonl pf (addr_of_bytes (get_region4 a))) ifArray) ttl
                [RawSocket (- 1)])"
    using assms(1,2) by (simp add: isReachable0_def get_region4_def Let_def)
  show ?thesis
    unfolding e tcp_probe_def Let_def
    using assms(3) b by (simp only: if_False if_True option.map fst_conv split: if_splits) auto
qed

text \<open>The theorem at a connection that is in progress and then completes without error.\<close>

theorem tcp_probe_outcomes_witness:
  "map_option fst (isReachable0 pf_linux os_unprivileged [10, 0, 0, 1] 3000 None 0)
     = Some Reachable"
proof -
  have h: "length [10, 0, 0, 1 :: jbyte] = 4" "raw_socket os_unprivileged = - 1"
    "stream_socket os_unprivileged \<noteq> JVM_IO_ERR os_unprivileged"
    "None = None \<or> 0 \<le> bind_res os_unprivileged"
    by (simp_all add: os_unprivileged_def os_silent_def)
  have c: "connect_res os_unprivileged = (- 1, EINPROGRESS)"
    "wait_connect os_unprivileged 3000 = 5" "pending_error os_unprivileged = None"
    by (simp_all add: os_unprivileged_def os_silent_def pending_error_def)
  show ?thesis
    using tcp_probe_outcomes [OF h, of pf_linux 3000 0]
    by (simp add: c)
qed

section \<open>Reachability probe: the ICMP echo loop\<close>

lemma wait_reply_True:
  assumes "wait_reply os pid him t s = Some res"
  shows "fst res \<longrightarrow> (\<exists>k. reply_matches pid him (recvfrom_res os k))"
  by (rule wait_reply.raw_induct
        [where P = "\<lambda>os pid him t s res. fst res \<longrightarrow> (\<exists>k. reply_matches pid him (recvfrom_res os k))",
         rotated 1, OF assms])
     (auto simp: Let_def split: if_splits)

lemma echo_loop_Reachable:
  assumes "echo_loop pf os pid him timeout seq s = Some res"
  shows "fst res = Reachable \<longrightarrow> (\<exists>k. reply_matches pid him (recvfrom_res os k))"
  by (rule echo_loop.raw_induct
        [where P = "\<lambda>pf os pid him timeout seq s res.
            fst res = Reachable \<longrightarrow> (\<exists>k. reply_matches pid him (recvfrom_res os k))",
         rotated 1, OF assms])
     (auto simp: Let_def split: if_splits Option.bind_splits dest: wait_reply_True)

lemma ping4_Reachable:
  "ping4 pf os him timeout netif ttl s = Some res \<Longrightarrow> fst res = Reachable \<Longrightarrow>
     \<exists>k. reply_matches (word_of_int (getpid os)) him (recvfrom_res os k)"
  unfolding ping4_def
  by (auto simp: Let_def split: option.splits if_splits dest: echo_loop_Reachable[rule_format])

lemma wait_reply_step:
  assumes "0 \<le> sint (net_wait os (n_wait s) tmout2)"
    and "\<not> reply_matches pid him (recvfrom_res os (n_recv s))"
  shows "wait_reply os pid him tmout2 s =
     (let t = net_wait os (n_wait s) tmout2;
          s2 = emit RecvFrom (emit (Wait tmout2 t) (s\<lparr>n_wait := n_wait s + 1, n_recv := n_recv s + 1\<rparr>))
      in if 0 < sint t then wait_reply os pid him t s2 else Some (False, s2))"
  using assms
  by (subst wait_reply.simps) (simp add: Let_def emit_def)

lemma sint_sub_1000:
  fixes t :: "32 word"
  assumes "- (2 ^ 31) + 1000 \<le> sint t"
  shows "sint (t - 1000) = sint t - 1000"
proof -
  have "sint t < 2 ^ 31" using sint_lt[of t] by simp
  then have "signed_take_bit 31 (sint t - 1000) = sint t - 1000"
    using assms by (intro signed_take_bit_int_eq_self) simp_all
  then show ?thesis by (simp add: sint_word_ariths)
qed

lemma wait_reply_total:
  assumes "wait_contract os"
  shows "\<exists>res. wait_reply os pid him t s = Some res"
proof (induction "nat (sint t)" arbitrary: t s rule: less_induct)
  case less
  let ?t = "net_wait os (n_wait s) t"
  show ?case
  proof (cases "0 < sint ?t")
    case True
    with assms have "sint ?t < sint t" by (simp add: wait_contract_def)
    with True have "nat (sint ?t) < nat (sint t)" by simp
    from less[OF this] have IH: "\<And>s'. \<exists>res. wait_reply os pid him ?t s' = Some res" .
    show ?thesis
      by (subst wait_reply.simps) (use True IH in \<open>auto simp: Let_def\<close>)
  next
    case False
    then show ?thesis by (subst wait_reply.simps) (auto simp: Let_def)
  qed
qed

lemma wait_reply_nomatch:
  assumes "wait_contract os" and "\<forall>k. \<not> reply_matches pid him (recvfrom_res os k)"
  shows "\<exists>s' ws. wait_reply os pid him t s = Some (False, s') \<and> n_send s' = n_send s
           \<and> trace s' = trace s @ Wait t (net_wait os (n_wait s) t) # ws
           \<and> (\<forall>e\<in>set ws. \<not> is_SendTo e)"
proof (induction "nat (sint t)" arbitrary: t s rule: less_induct)
  case less
  let ?t = "net_wait os (n_wait s) t"
  let ?s1 = "emit (Wait t ?t) (s\<lparr>n_wait := n_wait s + 1\<rparr>)"
  let ?s2 = "emit RecvFrom (?s1\<lparr>n_recv := n_recv ?s1 + 1\<rparr>)"
  show ?case
  proof (cases "0 < sint ?t")
    case True
    with assms have "sint ?t < sint t" by (simp add: wait_contract_def)
    with True have "nat (sint ?t) < nat (sint t)" by simp
    from less[OF this, of ?s2] obtain s' ws where
      r: "wait_reply os pid him ?t ?s2 = Some (False, s')" and
      n: "n_send s' = n_send ?s2" and
      tr: "trace s' = trace ?s2 @ Wait ?t (net_wait os (n_wait ?s2) ?t) # ws" and
      ws: "\<forall>e\<in>set ws. \<not> is_SendTo e"
      by blast
    have e: "wait_reply os pid him t s = Some (False, s')"
      by (subst wait_reply.simps) (use True assms(2) r in \<open>simp add: Let_def\<close>)
    have "trace s' = trace s @ Wait t ?t # (RecvFrom # Wait ?t (net_wait os (n_wait ?s2) ?t) # ws)"
      using tr by (simp add: emit_def)
    moreover have "\<forall>e\<in>set (RecvFrom # Wait ?t (net_wait os (n_wait ?s2) ?t) # ws). \<not> is_SendTo e"
      using ws by simp
    moreover have "n_send s' = n_send s" using n by (simp add: emit_def)
    ultimately show ?thesis using e by blast
  next
    case False
    show ?thesis
    proof (cases "0 \<le> sint ?t")
      case True
      have "wait_reply os pid him t s = Some (False, ?s2)"
        by (subst wait_reply.simps) (use True False assms(2) in \<open>simp add: Let_def\<close>)
      moreover have "trace ?s2 = trace s @ Wait t ?t # [RecvFrom]" by (simp add: emit_def)
      moreover have "n_send ?s2 = n_send s" by (simp add: emit_def)
      moreover have "\<forall>e\<in>set [RecvFrom]. \<not> is_SendTo e" by simp
      ultimately show ?thesis by blast
    next
      case neg: False
      have "wait_reply os pid him t s = Some (False, ?s1)"
        by (subst wait_reply.simps) (use neg False in \<open>simp add: Let_def\<close>)
      moreover have "trace ?s1 = trace s @ Wait t ?t # []" by (simp add: emit_def)
      moreover have "n_send ?s1 = n_send s" by (simp add: emit_def)
      ultimately show ?thesis by (intro exI[of _ ?s1] exI[of _ "[]"]) simp
    qed
  qed
qed

lemma slice_budgets_skip: "\<not> is_SendTo e \<Longrightarrow> slice_budgets (e # es) = slice_budgets es"
  by (cases e) simp_all

lemma slice_budgets_nosend:
  "\<forall>e\<in>set ws. \<not> is_SendTo e \<Longrightarrow> slice_budgets (ws @ ys) = slice_budgets ys"
  by (induction ws) (simp_all add: slice_budgets_skip)

lemma n_requests_last: "t \<le> 1000 \<Longrightarrow> n_requests t = 1"
proof -
  assume "t \<le> 1000"
  then have "(t + 999) div 1000 \<le> 1" by arith
  then have "nat ((t + 999) div 1000) \<le> 1" by simp
  then show ?thesis by (simp add: n_requests_def max_def)
qed

lemma n_requests_more: "1000 < t \<Longrightarrow> n_requests t = Suc (n_requests (t - 1000))"
proof -
  assume a: "1000 < t"
  then have e: "(t + 999) div 1000 = (t - 1000 + 999) div 1000 + 1" by arith
  from a have "1 \<le> (t - 1000 + 999) div 1000" by arith
  then show ?thesis unfolding n_requests_def e by (simp add: max_def nat_add_distrib)
qed

lemma echo_loop_total:
  assumes "wait_contract os"
  shows "\<exists>res. echo_loop pf os pid him timeout seq s = Some res"
proof (induction "if 0 < sint timeout then nat (sint timeout) else 2 ^ 32"
    arbitrary: timeout seq s rule: less_induct)
  case less
  let ?s1 = "emit (SendTo (echo_request pf os pid seq (gettimeofday os (n_send s))) him)
               (s\<lparr>n_send := n_send s + 1\<rparr>)"
  let ?tmout2 = "if 1000 < sint timeout then 1000 else timeout"
  from wait_reply_total[OF assms] obtain b s2 where
    w: "wait_reply os pid him ?tmout2 ?s1 = Some (b, s2)" by fastforce
  have IH: "\<exists>res. echo_loop pf os pid him (timeout - 1000) (seq + 1) s2 = Some res"
    if pos: "0 < sint (timeout - 1000)"
  proof (rule less)
    show "(if 0 < sint (timeout - 1000) then nat (sint (timeout - 1000)) else 2 ^ 32)
            < (if 0 < sint timeout then nat (sint timeout) else 2 ^ 32)"
    proof (cases "0 < sint timeout")
      case True
      then have "sint (timeout - 1000) = sint timeout - 1000"
        by (intro sint_sub_1000) simp
      with True pos show ?thesis by simp
    next
      case False
      have "sint (timeout - 1000) < 2 ^ 31" using sint_lt[of "timeout - 1000"] by simp
      then have "nat (sint (timeout - 1000)) < 2 ^ 32" by simp
      with False pos show ?thesis by simp
    qed
  qed
  show ?case
    by (subst echo_loop.simps) (use w IH in \<open>auto simp: Let_def\<close>)
qed

lemma echo_loop_nomatch:
  assumes "wait_contract os"
    and "\<forall>k. \<not> reply_matches pid him (recvfrom_res os k)"
    and "\<forall>k. \<not> (fst (sendto_res os k) < 0 \<and> snd (sendto_res os k) \<noteq> EINPROGRESS)"
  shows "- (2 ^ 31) + 1000 \<le> sint timeout \<Longrightarrow>
     \<exists>s' evs. echo_loop pf os pid him timeout seq s = Some (Unreachable, s')
        \<and> n_send s' = n_send s + n_requests (sint timeout)
        \<and> trace s' = trace s @ evs @ [Close]
        \<and> map sint (slice_budgets (evs @ [Close]))
            = map (\<lambda>i. min 1000 (sint timeout - 1000 * int i)) [0..<n_requests (sint timeout)]"
proof (induction "nat (sint timeout)" arbitrary: timeout seq s rule: less_induct)
  case less
  let ?T = "sint timeout"
  let ?pkt = "echo_request pf os pid seq (gettimeofday os (n_send s))"
  let ?s1 = "emit (SendTo ?pkt him) (s\<lparr>n_send := n_send s + 1\<rparr>)"
  let ?tmout2 = "if 1000 < ?T then 1000 else timeout"
  have sub: "sint (timeout - 1000) = ?T - 1000"
    using less.prems by (rule sint_sub_1000)
  have tm: "sint ?tmout2 = min 1000 ?T" by simp
  from wait_reply_nomatch[OF assms(1,2), of ?tmout2 ?s1] obtain s2 ws where
    w: "wait_reply os pid him ?tmout2 ?s1 = Some (False, s2)" and
    n2: "n_send s2 = n_send ?s1" and
    tr2: "trace s2 = trace ?s1 @ Wait ?tmout2 (net_wait os (n_wait ?s1) ?tmout2) # ws" and
    ws: "\<forall>e\<in>set ws. \<not> is_SendTo e"
    by blast
  let ?r = "net_wait os (n_wait ?s1) ?tmout2"
  have sok: "\<not> (fst (sendto_res os (n_send s)) < 0 \<and> snd (sendto_res os (n_send s)) \<noteq> EINPROGRESS)"
    using assms(3) by blast
  show ?case
  proof (cases "0 < sint (timeout - 1000)")
    case True
    then have big: "1000 < ?T" using sub by simp
    have "nat (sint (timeout - 1000)) < nat ?T" using sub big by simp
    moreover have "- (2 ^ 31) + 1000 \<le> sint (timeout - 1000)" using True by simp
    ultimately obtain s' evs where
      e: "echo_loop pf os pid him (timeout - 1000) (seq + 1) s2 = Some (Unreachable, s')" and
      n: "n_send s' = n_send s2 + n_requests (sint (timeout - 1000))" and
      tr: "trace s' = trace s2 @ evs @ [Close]" and
      sb: "map sint (slice_budgets (evs @ [Close]))
            = map (\<lambda>i. min 1000 (sint (timeout - 1000) - 1000 * int i))
                [0..<n_requests (sint (timeout - 1000))]"
      using less.hyps[of "timeout - 1000" "seq + 1" s2] by blast
    let ?evs = "SendTo ?pkt him # Wait ?tmout2 ?r # ws @ evs"
    have run: "echo_loop pf os pid him timeout seq s = Some (Unreachable, s')"
      by (subst echo_loop.simps) (use w e True sok in \<open>simp add: Let_def\<close>)
    have cnt: "n_send s' = n_send s + n_requests ?T"
      using n n2 by (simp add: emit_def n_requests_more[OF big] sub)
    have trc: "trace s' = trace s @ ?evs @ [Close]"
      using tr tr2 by (simp add: emit_def)
    have "slice_budgets (?evs @ [Close]) = ?tmout2 # slice_budgets (evs @ [Close])"
      using slice_budgets_nosend[OF ws, of "evs @ [Close]"] by simp
    then have "map sint (slice_budgets (?evs @ [Close]))
        = min 1000 ?T # map (\<lambda>i. min 1000 (?T - 1000 - 1000 * int i)) [0..<n_requests (?T - 1000)]"
      using sb tm by (simp add: sub)
    also have "\<dots> = map (\<lambda>i. min 1000 (?T - 1000 * int i)) [0..<n_requests ?T]"
    proof -
      have "[0..<Suc (n_requests (?T - 1000))] = 0 # map Suc [0..<n_requests (?T - 1000)]"
        by (simp add: upt_conv_Cons map_Suc_upt del: upt_Suc)
      then show ?thesis
        by (simp add: n_requests_more[OF big] comp_def algebra_simps del: upt_Suc)
    qed
    finally have "map sint (slice_budgets (?evs @ [Close]))
        = map (\<lambda>i. min 1000 (?T - 1000 * int i)) [0..<n_requests ?T]" .
    with run cnt trc show ?thesis by blast
  next
    case False
    then have small: "?T \<le> 1000" using sub by simp
    let ?evs = "SendTo ?pkt him # Wait ?tmout2 ?r # ws"
    have run: "echo_loop pf os pid him timeout seq s = Some (Unreachable, emit Close s2)"
      by (subst echo_loop.simps) (use w False sok in \<open>simp add: Let_def\<close>)
    have cnt: "n_send (emit Close s2) = n_send s + n_requests ?T"
      using n2 by (simp add: emit_def n_requests_last[OF small])
    have trc: "trace (emit Close s2) = trace s @ ?evs @ [Close]"
      using tr2 by (simp add: emit_def)
    have "slice_budgets (?evs @ [Close]) = [?tmout2]"
      using slice_budgets_nosend[OF ws, of "[Close]"] by simp
    then have "map sint (slice_budgets (?evs @ [Close]))
        = map (\<lambda>i. min 1000 (?T - 1000 * int i)) [0..<n_requests ?T]"
      using tm by (simp add: n_requests_last[OF small])
    with run cnt trc show ?thesis by blast
  qed
qed

lemma budget_sum:
  "sum_list (map (\<lambda>i. min 1000 (T - 1000 * int i)) [0..<n_requests T]) = T"
proof (induction "nat T" arbitrary: T rule: less_induct)
  case less
  show ?case
  proof (cases "1000 < T")
    case True
    have "[0..<Suc (n_requests (T - 1000))] = 0 # map Suc [0..<n_requests (T - 1000)]"
      by (simp add: upt_conv_Cons map_Suc_upt del: upt_Suc)
    then have "sum_list (map (\<lambda>i. min 1000 (T - 1000 * int i)) [0..<n_requests T])
        = min 1000 T
          + sum_list (map (\<lambda>i. min 1000 (T - 1000 - 1000 * int i)) [0..<n_requests (T - 1000)])"
      by (simp add: n_requests_more[OF True] comp_def algebra_simps del: upt_Suc)
    moreover have "nat (T - 1000) < nat T" using True by simp
    ultimately show ?thesis using less[of "T - 1000"] True by simp
  next
    case False
    then show ?thesis by (simp add: n_requests_last)
  qed
qed

lemma ping4_start:
  "\<exists>pre s3. (\<forall>e\<in>set pre. \<not> is_SendTo e) \<and> n_send s3 = n_send s \<and> trace s3 = trace s @ pre
     \<and> ((netif = None \<or> 0 \<le> bind_res os) \<longrightarrow>
          ping4 pf os him timeout netif ttl s
            = echo_loop pf os (word_of_int (getpid os)) him timeout 1 s3)
     \<and> (\<not> (netif = None \<or> 0 \<le> bind_res os) \<longrightarrow>
          (\<exists>res. ping4 pf os him timeout netif ttl s = Some res))"
proof (cases netif)
  case None
  show ?thesis
  proof (cases "0 < sint ttl")
    case True
    show ?thesis
      by (rule exI[of _ "[SetRcvBuf, SetTTL ttl, SetNonBlocking]"],
          rule exI[of _ "s\<lparr>trace := trace s @ [SetRcvBuf, SetTTL ttl, SetNonBlocking]\<rparr>"])
        (simp add: ping4_def None True emit_def Let_def)
  next
    case False
    show ?thesis
      by (rule exI[of _ "[SetRcvBuf, SetNonBlocking]"],
          rule exI[of _ "s\<lparr>trace := trace s @ [SetRcvBuf, SetNonBlocking]\<rparr>"])
        (simp add: ping4_def None False emit_def Let_def)
  qed
next
  case (Some nif)
  show ?thesis
  proof (cases "0 < sint ttl")
    case True
    show ?thesis
      by (rule exI[of _ "[SetRcvBuf, SetTTL ttl, Bind nif, SetNonBlocking]"],
          rule exI[of _ "s\<lparr>trace := trace s @ [SetRcvBuf, SetTTL ttl, Bind nif, SetNonBlocking]\<rparr>"])
        (simp add: ping4_def Some True emit_def Let_def not_le)
  next
    case False
    show ?thesis
      by (rule exI[of _ "[SetRcvBuf, Bind nif, SetNonBlocking]"],
          rule exI[of _ "s\<lparr>trace := trace s @ [SetRcvBuf, Bind nif, SetNonBlocking]\<rparr>"])
        (simp add: ping4_def Some False emit_def Let_def not_le)
  qed
qed

text \<open>
  Claim C4. Provided \<^verbatim>\<open>NET_Wait\<close> keeps its contract (a positive return value is less than
  the budget given: a wait that ends before its deadline has used up at least one
  millisecond), \<^verbatim>\<open>ping4\<close> returns for every 32-bit timeout. If moreover
  \<^verbatim>\<open>timeout - 1000\<close> does not overflow, bind and every \<^verbatim>\<open>sendto\<close> succeed and no received
  packet matches, then the outcome is \<open>Unreachable\<close>, the last call closes the socket,
  the number of echo requests is the timeout divided by 1000 and rounded up (at least
  one), and the wait after the \<open>i\<close>-th request starts with the budget
  \<open>min 1000 (timeout - 1000 * i)\<close>: the remaining timeout goes down by exactly 1000 per
  request, and the budgets of all slices add up to the timeout supplied.
\<close>

theorem ping4_terminates:
  assumes "wait_contract os"
  shows "(\<exists>res. ping4 pf os him timeout netif ttl s = Some res)
     \<and> (- (2 ^ 31) + 1000 \<le> sint timeout \<and> (netif = None \<or> 0 \<le> bind_res os)
          \<and> (\<forall>k. \<not> (fst (sendto_res os k) < 0 \<and> snd (sendto_res os k) \<noteq> EINPROGRESS))
          \<and> (\<forall>k. \<not> reply_matches (word_of_int (getpid os)) him (recvfrom_res os k))
        \<longrightarrow> (\<exists>s'. ping4 pf os him timeout netif ttl s = Some (Unreachable, s')
              \<and> n_send s' = n_send s + n_requests (sint timeout)
              \<and> last (trace s') = Close
              \<and> map sint (slice_budgets (drop (length (trace s)) (trace s')))
                  = map (\<lambda>i. min 1000 (sint timeout - 1000 * int i))
                      [0..<n_requests (sint timeout)]
              \<and> sum_list (map sint (slice_budgets (drop (length (trace s)) (trace s'))))
                  = sint timeout))"
proof -
  from ping4_start[of s netif os pf him timeout ttl] obtain pre s3 where
    pre: "\<forall>e\<in>set pre. \<not> is_SendTo e" and n3: "n_send s3 = n_send s" and
    tr3: "trace s3 = trace s @ pre" and
    ok: "(netif = None \<or> 0 \<le> bind_res os) \<Longrightarrow>
          ping4 pf os him timeout netif ttl s
            = echo_loop pf os (word_of_int (getpid os)) him timeout 1 s3" and
    bad: "\<not> (netif = None \<or> 0 \<le> bind_res os) \<Longrightarrow>
          (\<exists>res. ping4 pf os him timeout netif ttl s = Some res)"
    by blast
  have total: "\<exists>res. ping4 pf os him timeout netif ttl s = Some res"
  proof (cases "netif = None \<or> 0 \<le> bind_res os")
    case True
    then show ?thesis using ok echo_loop_total[OF assms] by simp
  next
    case False
    then show ?thesis by (rule bad)
  qed
  have quiet: "\<exists>s'. ping4 pf os him timeout netif ttl s = Some (Unreachable, s')
              \<and> n_send s' = n_send s + n_requests (sint timeout)
              \<and> last (trace s') = Close
              \<and> map sint (slice_budgets (drop (length (trace s)) (trace s')))
                  = map (\<lambda>i. min 1000 (sint timeout - 1000 * int i))
                      [0..<n_requests (sint timeout)]
              \<and> sum_list (map sint (slice_budgets (drop (length (trace s)) (trace s'))))
                  = sint timeout"
    if range: "- (2 ^ 31) + 1000 \<le> sint timeout"
      and bind: "netif = None \<or> 0 \<le> bind_res os"
      and send: "\<forall>k. \<not> (fst (sendto_res os k) < 0 \<and> snd (sendto_res os k) \<noteq> EINPROGRESS)"
      and nomatch: "\<forall>k. \<not> reply_matches (word_of_int (getpid os)) him (recvfrom_res os k)"
  proof -
    from echo_loop_nomatch[OF assms nomatch send range, of pf 1 s3] obtain s' evs where
      e: "echo_loop pf os (word_of_int (getpid os)) him timeout 1 s3 = Some (Unreachable, s')" and
      n: "n_send s' = n_send s3 + n_requests (sint timeout)" and
      tr: "trace s' = trace s3 @ evs @ [Close]" and
      sb: "map sint (slice_budgets (evs @ [Close]))
            = map (\<lambda>i. min 1000 (sint timeout - 1000 * int i)) [0..<n_requests (sint timeout)]"
      by blast
    have "drop (length (trace s)) (trace s') = pre @ evs @ [Close]"
      by (simp add: tr tr3)
    then have "slice_budgets (drop (length (trace s)) (trace s')) = slice_budgets (evs @ [Close])"
      using slice_budgets_nosend[OF pre] by simp
    moreover have "last (trace s') = Close" by (simp add: tr)
    ultimately show ?thesis using e n n3 sb ok[OF bind] by (simp add: budget_sum)
  qed
  from total quiet show ?thesis by blast
qed

lemma os_silent_contract: "wait_contract os_silent"
  by (simp add: wait_contract_def os_silent_def)

lemma os_silent_nomatch: "\<not> reply_matches pid him (recvfrom_res os_silent k)"
  by (simp add: reply_matches_def icmplen_def hlen1_def os_silent_def)

text \<open>
  The theorem at a silent network and a timeout of 2500 ms: three echo requests, with
  slices of 1000, 1000 and 500 ms.
\<close>

theorem ping4_terminates_witness:
  "wait_contract os_silent
   \<and> (\<exists>s'. ping4 pf_linux os_silent 0x0A000001 2500 None 0 (probe_start 3) = Some (Unreachable, s')
          \<and> n_send s' = 3 \<and> last (trace s') = Close
          \<and> map sint (slice_budgets (drop 1 (trace s'))) = [1000, 1000, 500]
          \<and> sum_list (map sint (slice_budgets (drop 1 (trace s')))) = 2500)"
proof -
  have h: "- (2 ^ 31) + 1000 \<le> sint (2500 :: jint) \<and> (None = None \<or> 0 \<le> bind_res os_silent)
          \<and> (\<forall>k. \<not> (fst (sendto_res os_silent k) < 0 \<and> snd (sendto_res os_silent k) \<noteq> EINPROGRESS))
          \<and> (\<forall>k. \<not> reply_matches (word_of_int (getpid os_silent)) 0x0A000001 (recvfrom_res os_silent k))"
    using os_silent_nomatch by (simp add: os_silent_def)
  have n: "n_requests 2500 = 3"
    by (simp add: n_requests_def)
  have m: "map (\<lambda>i. min 1000 (2500 - 1000 * int i)) [0..<3] = [1000, 1000, 500]"
    by (simp add: upt_rec)
  have s: "n_send (probe_start 3) = 0" "length (trace (probe_start 3)) = 1"
    by (simp_all add: probe_start_def)
  from ping4_terminates [OF os_silent_contract, of pf_linux "0x0A000001" 2500 None 0 "probe_start 3",
      THEN conjunct2, rule_format, OF h]
  show ?thesis
    using os_silent_contract by (simp add: n m s)
qed

text \<open>
  Claim C5. If \<^verbatim>\<open>ping4\<close> returns \<open>Reachable\<close>, then some received packet had the ICMP type
  echo-reply, the identifier of this call (the process id cut to 16 bits) and the target
  address as its source. And a received packet that fails one of these three tests does
  not end the wait: the loop goes on with the budget that is left, or, with none left,
  ends this slice without a match.
\<close>

theorem echo_reply_acceptance:
  "(map_option fst (ping4 pf os him timeout netif ttl s) = Some Reachable \<longrightarrow>
      (\<exists>k. icmp_type (recvfrom_res os k) = ICMP_ECHOREPLY
          \<and> icmp_id (recvfrom_res os k) = word_of_int (getpid os)
          \<and> sa_recv (recvfrom_res os k) = him))
   \<and> (0 \<le> sint (net_wait os (n_wait s0) tmout2)
        \<and> (icmp_type (recvfrom_res os (n_recv s0)) \<noteq> ICMP_ECHOREPLY
             \<or> icmp_id (recvfrom_res os (n_recv s0)) \<noteq> pid
             \<or> sa_recv (recvfrom_res os (n_recv s0)) \<noteq> him) \<longrightarrow>
       wait_reply os pid him tmout2 s0 =
         (let t = net_wait os (n_wait s0) tmout2;
              s2 = emit RecvFrom (emit (Wait tmout2 t)
                     (s0\<lparr>n_wait := n_wait s0 + 1, n_recv := n_recv s0 + 1\<rparr>))
          in if 0 < sint t then wait_reply os pid him t s2 else Some (False, s2)))"
proof (intro conjI impI)
  assume "map_option fst (ping4 pf os him timeout netif ttl s) = Some Reachable"
  then obtain res where "ping4 pf os him timeout netif ttl s = Some res" "fst res = Reachable"
    by auto
  then have "\<exists>k. reply_matches (word_of_int (getpid os)) him (recvfrom_res os k)"
    by (rule ping4_Reachable)
  then show "\<exists>k. icmp_type (recvfrom_res os k) = ICMP_ECHOREPLY
          \<and> icmp_id (recvfrom_res os k) = word_of_int (getpid os)
          \<and> sa_recv (recvfrom_res os k) = him"
    by (auto simp: reply_matches_def)
next
  assume a: "0 \<le> sint (net_wait os (n_wait s0) tmout2)
        \<and> (icmp_type (recvfrom_res os (n_recv s0)) \<noteq> ICMP_ECHOREPLY
             \<or> icmp_id (recvfrom_res os (n_recv s0)) \<noteq> pid
             \<or> sa_recv (recvfrom_res os (n_recv s0)) \<noteq> him)"
  then have "\<not> reply_matches pid him (recvfrom_res os (n_recv s0))"
    by (auto simp: reply_matches_def)
  with a show "wait_reply os pid him tmout2 s0 =
         (let t = net_wait os (n_wait s0) tmout2;
              s2 = emit RecvFrom (emit (Wait tmout2 t)
                     (s0\<lparr>n_wait := n_wait s0 + 1, n_recv := n_recv s0 + 1\<rparr>))
          in if 0 < sint t then wait_reply os pid him t s2 else Some (False, s2))"
    by (intro wait_reply_step) simp_all
qed

lemma os_answering_matches:
  "reply_matches 0x1234 0x0A000001 (recvfrom_res os_answering k)"
  by (simp add: reply_matches_def icmplen_def hlen1_def icmp_type_def icmp_id_def
      ICMP_ECHOREPLY_def os_answering_def os_silent_def echo_reply_buf_def)

lemma os_answering_ping4:
  "map_option fst (ping4 pf_linux os_answering 0x0A000001 1000 None 0 (probe_start 3))
     = Some Reachable"
proof -
  have f: "getpid os_answering = 0x1234" "\<And>k. sendto_res os_answering k = (52, EOTHER 0)"
    "\<And>k t. net_wait os_answering k t = 0"
    by (simp_all add: os_answering_def os_silent_def)
  show ?thesis
    unfolding ping4_def
    by (subst echo_loop.simps, subst wait_reply.simps)
      (simp add: Let_def f os_answering_matches)
qed

text \<open>
  The theorem at a system whose every packet is an echo reply from 10.0.0.1 with the
  right identifier: probing 10.0.0.1 is answered, and while waiting for 10.0.0.2 the packet
  is passed over.
\<close>

theorem echo_reply_acceptance_witness:
  "(\<exists>k. icmp_type (recvfrom_res os_answering k) = ICMP_ECHOREPLY
          \<and> icmp_id (recvfrom_res os_answering k) = word_of_int (getpid os_answering)
          \<and> sa_recv (recvfrom_res os_answering k) = 0x0A000001)
   \<and> wait_reply os_answering 0x1234 0x0A000002 1000 (probe_start 3) =
       Some (False, \<lparr>n_send = 0, n_wait = 1, n_recv = 1,
                     trace = [RawSocket 3, Wait 1000 0, RecvFrom]\<rparr>)"
proof -
  have h: "0 \<le> sint (net_wait os_answering (n_wait (probe_start 3)) 1000)
        \<and> (icmp_type (recvfrom_res os_answering (n_recv (probe_start 3))) \<noteq> ICMP_ECHOREPLY
             \<or> icmp_id (recvfrom_res os_answering (n_recv (probe_start 3))) \<noteq> 0x1234
             \<or> sa_recv (recvfrom_res os_answering (n_recv (probe_start 3))) \<noteq> 0x0A000002)"
    by (simp add: os_answering_def os_silent_def)
  have t: "\<And>k t. net_wait os_answering k t = 0"
    by (simp add: os_answering_def os_silent_def)
  from echo_reply_acceptance
      [of pf_linux os_answering "0x0A000001" 1000 None 0 "probe_start 3" "probe_start 3" 1000
          "0x1234" , THEN conjunct1, rule_format, OF os_answering_ping4]
  have a: "\<exists>k. icmp_type (recvfrom_res os_answering k) = ICMP_ECHOREPLY
          \<and> icmp_id (recvfrom_res os_answering k) = word_of_int (getpid os_answering)
          \<and> sa_recv (recvfrom_res os_answering k) = 0x0A000001" .
  from echo_reply_acceptance
      [of pf_linux os_answering "0x0A000002" 1000 None 0 "probe_start 3" "probe_start 3" 1000
          "0x1234", THEN conjunct2, rule_format, OF h]
  have b: "wait_reply os_answering 0x1234 0x0A000002 1000 (probe_start 3) =
       Some (False, \<lparr>n_send = 0, n_wait = 1, n_recv = 1,
                     trace = [RawSocket 3, Wait 1000 0, RecvFrom]\<rparr>)"
    by (simp add: t Let_def emit_def probe_start_def)
  from a b show ?thesis by blast
qed

end
